theory Spec2Isabelle
  imports Main "HOL-Library.AList"
begin

section \<open>The resources updater \<^verbatim>\<open>tools/resources/update.py\<close>\<close>

text \<open>
  The script is Python 2.  It reads two version numbers (the one recorded in the
  resources directory and the one the DEPS file asks for) and, when they differ or
  when the download is forced, downloads an archive over HTTP into a temporary
  directory, replaces the resources directory by the archive's contents and records
  the new version.

  The embedding is a state-passing one.  Everything the script reads but never changes
  (the process environment, the DEPS file, the remote host, the behaviour of the
  standard library on the archive, faults of the local disk) is a record \<open>env\<close>;
  everything it changes (the resources directory, the temporary directories, the
  standard output) is a record \<open>world\<close>.  A Python function becomes a function
  \<open>world \<Rightarrow> (py_error + 'a) \<times> world\<close>: an exception is \<open>Inl\<close>, and the world next
  to it is the world as the exception left it.
\<close>

subsection \<open>Python values: exceptions, integers and their text\<close>

datatype py_error =
    ValueError | KeyError | AttributeError | ZeroDivisionError
  | IOError | OSError | URLError | HTTPError nat | ReadError | OtherError

text \<open>\<^verbatim>\<open>'%d' % n\<close> and \<^verbatim>\<open>'%s' % n\<close> for an integer: its decimal text.\<close>

definition digit_char :: "nat \<Rightarrow> char" where
  "digit_char d = ''0123456789'' ! d"

function digits :: "nat \<Rightarrow> string" where
  "digits n = (if n < 10 then [digit_char n] else digits (n div 10) @ [digit_char (n mod 10)])"
  by pat_completeness auto
termination
  by (relation "measure (\<lambda>n. n)") auto

declare digits.simps [simp del]

definition str_int :: "int \<Rightarrow> string" where
  "str_int i = (if i < 0 then CHR ''-'' # digits (nat (- i)) else digits (nat i))"

text \<open>
  \<^verbatim>\<open>int(s)\<close> for a string: surrounding white space is dropped, one sign is allowed,
  and what is left has to be a non-empty run of decimal digits; anything else raises
  \<^verbatim>\<open>ValueError\<close>.
\<close>

definition is_space :: "char \<Rightarrow> bool" where
  "is_space c = (c \<in> set [CHR 0x20, CHR 0x09, CHR 0x0A, CHR 0x0B, CHR 0x0C, CHR 0x0D])"

definition strip :: "string \<Rightarrow> string" where
  "strip s = rev (dropWhile is_space (rev (dropWhile is_space s)))"

definition is_digit :: "char \<Rightarrow> bool" where
  "is_digit c = (c \<in> set ''0123456789'')"

definition digit_val :: "char \<Rightarrow> nat" where
  "digit_val c = of_char c - 48"

definition digits_val :: "string \<Rightarrow> nat" where
  "digits_val ds = foldl (\<lambda>acc c. acc * 10 + digit_val c) 0 ds"

definition unsigned_int :: "string \<Rightarrow> py_error + nat" where
  "unsigned_int ds = (if ds \<noteq> [] \<and> list_all is_digit ds then Inr (digits_val ds) else Inl ValueError)"

definition py_int :: "string \<Rightarrow> py_error + int" where
  "py_int s =
     (case strip s of
        [] \<Rightarrow> Inl ValueError
      | c # r \<Rightarrow>
          if c = CHR ''-'' then (case unsigned_int r of Inl e \<Rightarrow> Inl e | Inr n \<Rightarrow> Inr (- int n))
          else if c = CHR ''+'' then (case unsigned_int r of Inl e \<Rightarrow> Inl e | Inr n \<Rightarrow> Inr (int n))
          else (case unsigned_int (c # r) of Inl e \<Rightarrow> Inl e | Inr n \<Rightarrow> Inr (int n)))"

subsection \<open>The standard library's \<^verbatim>\<open>urlparse.urljoin\<close>\<close>

text \<open>
  \<^verbatim>\<open>urljoin\<close> is not code of the script but of Python's standard library
  (module \<^verbatim>\<open>urlparse\<close> of Python 2.7), and the URL the script downloads from is what
  it returns.  The functions below follow that module function by function, on byte
  strings, with \<^verbatim>\<open>allow_fragments\<close> at its default.
\<close>

fun split_on :: "char \<Rightarrow> string \<Rightarrow> string list" where
  "split_on c [] = [[]]"
| "split_on c (x # xs) =
     (if x = c then [] # split_on c xs
      else (case split_on c xs of [] \<Rightarrow> [[x]] | s # ss \<Rightarrow> (x # s) # ss))"

fun join_on :: "char \<Rightarrow> string list \<Rightarrow> string" where
  "join_on c [] = []"
| "join_on c [s] = s"
| "join_on c (s # ss) = s @ c # join_on c ss"

text \<open>\<^verbatim>\<open>s.split(c, 1)\<close> for a string that holds \<open>c\<close>: what is before and after its first occurrence.\<close>

definition split_first :: "char \<Rightarrow> string \<Rightarrow> string \<times> string" where
  "split_first c s = (takeWhile (\<lambda>x. x \<noteq> c) s, tl (dropWhile (\<lambda>x. x \<noteq> c) s))"

definition uses_relative :: "string list" where
  "uses_relative = [''ftp'', ''http'', ''gopher'', ''nntp'', ''imap'', ''wais'', ''file'',
     ''https'', ''shttp'', ''mms'', ''prospero'', ''rtsp'', ''rtspu'', [], ''sftp'',
     ''svn'', ''svn+ssh'']"

definition uses_netloc :: "string list" where
  "uses_netloc = [''ftp'', ''http'', ''gopher'', ''nntp'', ''telnet'', ''imap'', ''wais'',
     ''file'', ''mms'', ''https'', ''shttp'', ''snews'', ''prospero'', ''rtsp'', ''rtspu'',
     ''rsync'', [], ''svn'', ''svn+ssh'', ''sftp'', ''nfs'', ''git'', ''git+ssh'']"

definition uses_params :: "string list" where
  "uses_params = [''ftp'', ''hdl'', ''prospero'', ''http'', ''imap'', ''https'', ''shttp'',
     ''rtsp'', ''rtspu'', ''sip'', ''sips'', ''mms'', [], ''sftp'', ''tel'']"

definition scheme_chars :: string where
  "scheme_chars = ''abcdefghijklmnopqrstuvwxyzABCDEFGHIJKLMNOPQRSTUVWXYZ0123456789+-.''"

definition lower_char :: "char \<Rightarrow> char" where
  "lower_char c =
     (if c \<in> set ''ABCDEFGHIJKLMNOPQRSTUVWXYZ'' then char_of (of_char c + (32::nat)) else c)"

definition splitnetloc :: "string \<Rightarrow> string \<times> string" where
  \<comment> \<open>\<^verbatim>\<open>_splitnetloc(url, 2)\<close> for a \<open>url\<close> that starts with two slashes\<close>
  "splitnetloc url =
     (let r = drop 2 url; stop = (\<lambda>x. x \<notin> set ''/?#'')
      in (takeWhile stop r, dropWhile stop r))"

definition bad_brackets :: "string \<Rightarrow> bool" where
  "bad_brackets netloc =
     ((CHR ''['' \<in> set netloc \<and> CHR '']'' \<notin> set netloc) \<or>
      (CHR '']'' \<in> set netloc \<and> CHR ''['' \<notin> set netloc))"

record split_result =
  sr_scheme :: string
  sr_netloc :: string
  sr_path :: string
  sr_params :: string
  sr_query :: string
  sr_fragment :: string

definition split_tail :: "string \<Rightarrow> string \<Rightarrow> py_error + split_result" where
  \<comment> \<open>the part \<^verbatim>\<open>urlsplit\<close> runs once the scheme is known: network location, fragment, query\<close>
  "split_tail scheme url =
     (let (netloc, url1) = (if take 2 url = ''//'' then splitnetloc url else ([], url))
      in if bad_brackets netloc then Inl ValueError
         else
           let (url2, fragment) = (if CHR ''#'' \<in> set url1 then split_first CHR ''#'' url1 else (url1, []));
               (url3, query) = (if CHR ''?'' \<in> set url2 then split_first CHR ''?'' url2 else (url2, []))
           in Inr \<lparr>sr_scheme = scheme, sr_netloc = netloc, sr_path = url3, sr_params = [],
                   sr_query = query, sr_fragment = fragment\<rparr>)"

definition urlsplit :: "string \<Rightarrow> string \<Rightarrow> py_error + split_result" where
  "urlsplit url scheme =
     (if CHR '':'' \<in> set url \<and> takeWhile (\<lambda>x. x \<noteq> CHR '':'') url \<noteq> [] then
        let (pre, rest) = split_first CHR '':'' url
        in if pre = ''http'' then split_tail ''http'' rest
           else if list_all (\<lambda>c. c \<in> set scheme_chars) pre
                   \<and> (rest = [] \<or> \<not> list_all is_digit rest)
                then split_tail (map lower_char pre) rest
           else split_tail scheme url
      else split_tail scheme url)"

definition splitparams :: "string \<Rightarrow> string \<times> string" where
  "splitparams url =
     (if CHR ''/'' \<in> set url then
        let seg = last (split_on CHR ''/'' url); k = length url - length seg
        in if CHR '';'' \<in> set seg
           then (take k url @ fst (split_first CHR '';'' seg), snd (split_first CHR '';'' seg))
           else (url, [])
      else split_first CHR '';'' url)"

definition urlparse :: "string \<Rightarrow> string \<Rightarrow> py_error + split_result" where
  "urlparse url scheme =
     (case urlsplit url scheme of
        Inl e \<Rightarrow> Inl e
      | Inr r \<Rightarrow>
          if sr_scheme r \<in> set uses_params \<and> CHR '';'' \<in> set (sr_path r)
          then Inr (r\<lparr>sr_path := fst (splitparams (sr_path r)),
                       sr_params := snd (splitparams (sr_path r))\<rparr>)
          else Inr r)"

definition urlunparse :: "split_result \<Rightarrow> string" where
  "urlunparse r =
     (let url0 = (if sr_params r \<noteq> [] then sr_path r @ '';'' @ sr_params r else sr_path r);
          url1 = (if sr_netloc r \<noteq> []
                     \<or> (sr_scheme r \<noteq> [] \<and> sr_scheme r \<in> set uses_netloc \<and> take 2 url0 \<noteq> ''//'')
                  then ''//'' @ sr_netloc r
                         @ (if url0 \<noteq> [] \<and> take 1 url0 \<noteq> ''/'' then CHR ''/'' # url0 else url0)
                  else url0);
          url2 = (if sr_scheme r \<noteq> [] then sr_scheme r @ '':'' @ url1 else url1);
          url3 = (if sr_query r \<noteq> [] then url2 @ ''?'' @ sr_query r else url2)
      in if sr_fragment r \<noteq> [] then url3 @ ''#'' @ sr_fragment r else url3)"

text \<open>
  The loop that resolves \<^verbatim>\<open>..\<close>: the first segment \<^verbatim>\<open>..\<close> that is neither the first nor
  the last one and follows a segment other than the empty one and \<^verbatim>\<open>..\<close> goes, with the
  segment before it; then the scan starts again.
\<close>

fun del_dotdot :: "string list \<Rightarrow> string list option" where
  "del_dotdot (a # b # c # rest) =
     (if b = ''..'' \<and> a \<noteq> [] \<and> a \<noteq> ''..'' then Some (c # rest)
      else map_option ((#) a) (del_dotdot (b # c # rest)))"
| "del_dotdot segs = None"

lemma del_dotdot_shorter: "del_dotdot segs = Some segs' \<Longrightarrow> length segs' < length segs"
  by (induction segs arbitrary: segs' rule: del_dotdot.induct) (auto split: if_splits)

function resolve_dotdot :: "string list \<Rightarrow> string list" where
  "resolve_dotdot segs =
     (case del_dotdot segs of None \<Rightarrow> segs | Some segs' \<Rightarrow> resolve_dotdot segs')"
  by pat_completeness auto
termination
  by (relation "measure length") (auto dest: del_dotdot_shorter)

declare resolve_dotdot.simps [simp del]

definition join_segments :: "string list \<Rightarrow> string" where
  "join_segments segments0 =
     (let segments1 = (if last segments0 = ''.'' then butlast segments0 @ [[]] else segments0);
          segments2 = filter (\<lambda>s. s \<noteq> ''.'') segments1;
          segments3 = resolve_dotdot segments2;
          segments4 = (if segments3 = [[], ''..''] then [[], []]
                       else if 2 \<le> length segments3 \<and> last segments3 = ''..''
                       then butlast (butlast segments3) @ [[]]
                       else segments3)
      in join_on CHR ''/'' segments4)"

definition urljoin :: "string \<Rightarrow> string \<Rightarrow> py_error + string" where
  "urljoin base url =
     (if base = [] then Inr url
      else if url = [] then Inr base
      else
        case urlparse base [] of
          Inl e \<Rightarrow> Inl e
        | Inr b \<Rightarrow>
            (case urlparse url (sr_scheme b) of
               Inl e \<Rightarrow> Inl e
             | Inr u \<Rightarrow>
                 if sr_scheme u \<noteq> sr_scheme b \<or> sr_scheme u \<notin> set uses_relative then Inr url
                 else if sr_scheme u \<in> set uses_netloc \<and> sr_netloc u \<noteq> [] then Inr (urlunparse u)
                 else
                   let u1 = (if sr_scheme u \<in> set uses_netloc then u\<lparr>sr_netloc := sr_netloc b\<rparr> else u)
                   in if take 1 (sr_path u1) = ''/'' then Inr (urlunparse u1)
                      else if sr_path u1 = [] \<and> sr_params u1 = [] then
                        Inr (urlunparse (u1\<lparr>sr_path := sr_path b, sr_params := sr_params b,
                               sr_query := (if sr_query u1 = [] then sr_query b else sr_query u1)\<rparr>))
                      else
                        Inr (urlunparse (u1\<lparr>sr_path :=
                               join_segments (butlast (split_on CHR ''/'' (sr_path b))
                                              @ split_on CHR ''/'' (sr_path u1))\<rparr>))))"

subsection \<open>The world the script runs in\<close>

text \<open>
  The resources directory is the one node of the file system the script owns.  A
  directory is the list of its files, each a name and its contents (the archives hold
  plain files; a file in a subdirectory is named by its relative path).
\<close>

type_synonym dir = "(string \<times> string) list"

datatype fsnode = NoEntry | RegularFile | Directory dir

text \<open>A value bound in the DEPS file: the script passes it to \<^verbatim>\<open>int()\<close>.\<close>

datatype pyval = PyInt int | PyStr string

text \<open>
  What \<^verbatim>\<open>urllib2.urlopen\<close> gives for a URL: an exception (\<^verbatim>\<open>URLError\<close> when the host
  cannot be reached, \<^verbatim>\<open>HTTPError\<close> with the status when the answer is not a success), or
  a response.  A response has its \<^verbatim>\<open>Content-Length\<close> header, if any, and its body;
  \<open>broken\<close> says that the connection fails once the body it delivered is read, in
  place of the empty read that ends a download.
\<close>

record response =
  content_length :: "string option"
  body :: string
  broken :: bool

datatype http_result = Raises py_error | Answer response

text \<open>
  What the script reads and does not change.  \<open>percent_text b t\<close> is the text of
  \<^verbatim>\<open>'%0.2f' % round(float(b) / t * 100, 2)\<close>: the digits of a floating-point number are
  left to the environment.  \<open>untar\<close> is \<^verbatim>\<open>tarfile\<close> reading a gzip-compressed archive:
  its members, or nothing when the bytes are no such archive.  The three faults are the
  ways the local disk can fail the installation: the recursive delete stops with the
  named files left, the extraction stops after some members, the marker file cannot be
  opened for writing.
\<close>

record env =
  skip_variable :: "string option"
  downloads_path :: string
  deps_vars :: "py_error + (string \<times> pyval) list"
  remote :: "string \<Rightarrow> http_result"
  untar :: "string \<Rightarrow> (string \<times> string) list option"
  percent_text :: "int \<Rightarrow> int \<Rightarrow> string"
  rmtree_fault :: "string list option"
  extract_fault :: "nat option"
  marker_fault :: bool

text \<open>
  What the script changes.  \<open>calls\<close> is not state of the script: it records, in order,
  the calls that reach outside the process, so that the order of the steps can be
  stated.
\<close>

datatype event =
    Mkdtemp nat | Urlopen string | Rmtree | Mkdir | Extract | WriteVersion int | RmtreeTemp nat

record world =
  resources :: fsnode
  temp_dirs :: "(nat \<times> dir) list"
  stdout :: string
  calls :: "event list"

record options =
  opt_force :: bool
  opt_base_url :: "string option"

type_synonym 'a io = "world \<Rightarrow> (py_error + 'a) \<times> world"

definition returnE :: "'a \<Rightarrow> 'a io" where
  "returnE x w = (Inr x, w)"

definition bindE :: "'a io \<Rightarrow> ('a \<Rightarrow> 'b io) \<Rightarrow> 'b io" where
  "bindE m f w = (case m w of (Inl e, w1) \<Rightarrow> (Inl e, w1) | (Inr x, w1) \<Rightarrow> f x w1)"

definition effect :: "(world \<Rightarrow> world) \<Rightarrow> unit io" where
  "effect f w = (Inr (), f w)"

text \<open>\<^verbatim>\<open>try: m finally: fin\<close>: \<open>fin\<close> runs however \<open>m\<close> ends, and then \<open>m\<close>'s outcome stands.\<close>

definition try_finally :: "'a io \<Rightarrow> unit io \<Rightarrow> 'a io" where
  "try_finally m fin w =
     (case m w of (r, w1) \<Rightarrow> (case fin w1 of (Inl e, w2) \<Rightarrow> (Inl e, w2) | (Inr u, w2) \<Rightarrow> (r, w2)))"

definition write_stdout :: "string \<Rightarrow> world \<Rightarrow> world" where
  "write_stdout s w = w\<lparr>stdout := stdout w @ s\<rparr>"

definition print :: "string \<Rightarrow> world \<Rightarrow> world" where
  "print s w = write_stdout (s @ [CHR 0x0A]) w"

definition record_call :: "event \<Rightarrow> world \<Rightarrow> world" where
  "record_call e w = w\<lparr>calls := calls w @ [e]\<rparr>"

subsection \<open>The script\<close>

definition DEPS_KEY :: string where
  "DEPS_KEY = ''webrtc_resources_revision''"

definition REMOTE_URL_BASE :: string where
  "REMOTE_URL_BASE = ''http://commondatastorage.googleapis.com/webrtc-resources''"

definition VERSION_FILENAME :: string where
  "VERSION_FILENAME = ''webrtc-resources-version''"

definition FILENAME_PREFIX :: string where
  "FILENAME_PREFIX = ''webrtc-resources-''"

definition EXTENSION :: string where
  "EXTENSION = ''.tgz''"

text \<open>
  \<^verbatim>\<open>_get_current_version\<close>.  The marker is a file of the resources directory, so it is a
  file exactly when the directory is there and has it.
\<close>

definition get_current_version :: "int io" where
  "get_current_version w =
     (case resources w of
        Directory files \<Rightarrow>
          (case map_of files VERSION_FILENAME of
             None \<Rightarrow> (Inr 0, w)
           | Some text \<Rightarrow>
               (case py_int text of
                  Inl e \<Rightarrow> (Inl e, w)
                | Inr current_version \<Rightarrow>
                    (Inr current_version,
                     print (''Found downloaded resources: version: '' @ str_int current_version) w)))
      | _ \<Rightarrow> (Inr 0, w))"

definition int_of_pyval :: "pyval \<Rightarrow> py_error + int" where
  "int_of_pyval v = (case v of PyInt i \<Rightarrow> Inr i | PyStr s \<Rightarrow> py_int s)"

text \<open>
  \<^verbatim>\<open>_get_desired_version\<close>.  Running the DEPS file as Python is the environment's part:
  \<open>deps_vars\<close> is the dictionary \<^verbatim>\<open>vars\<close> it defines, or the exception that reading or
  running it raised.
\<close>

definition get_desired_version :: "env \<Rightarrow> int io" where
  "get_desired_version e w =
     (case deps_vars e of
        Inl err \<Rightarrow> (Inl err, w)
      | Inr deps \<Rightarrow>
          (case map_of deps DEPS_KEY of
             None \<Rightarrow> (Inl KeyError, w)
           | Some v \<Rightarrow>
               (case int_of_pyval v of
                  Inl err \<Rightarrow> (Inl err, w)
                | Inr desired_version \<Rightarrow>
                    (Inr desired_version,
                     print (''Version in DEPS file: '' @ str_int desired_version) w))))"

text \<open>
  \<^verbatim>\<open>_print_progress\<close>.  The division is a floating-point one and raises
  \<^verbatim>\<open>ZeroDivisionError\<close> for a total of zero; the two sizes are shown in whole kB
  (\<^verbatim>\<open>/\<close> on two integers of Python 2 rounds down, as \<open>div\<close> does).
\<close>

definition print_progress :: "env \<Rightarrow> int \<Rightarrow> int \<Rightarrow> unit io" where
  "print_progress e bytes_so_far total_size w =
     (if total_size = 0 then (Inl ZeroDivisionError, w)
      else
        let w1 = write_stdout (''Downloaded '' @ str_int (bytes_so_far div 1024) @ '' of ''
                   @ str_int (total_size div 1024) @ '' kB (''
                   @ percent_text e bytes_so_far total_size @ ''%)'' @ [CHR 0x0D]) w
        in (Inr (), if total_size \<le> bytes_so_far then write_stdout [CHR 0x0A] w1 else w1))"

text \<open>A file open for writing in a temporary directory, and \<^verbatim>\<open>write\<close> on it.\<close>

type_synonym temp_file = "nat \<times> string"

definition file_write :: "temp_file \<Rightarrow> string \<Rightarrow> world \<Rightarrow> world" where
  "file_write f data w =
     w\<lparr>temp_dirs := AList.map_entry (fst f) (AList.map_entry (snd f) (\<lambda>old. old @ data)) (temp_dirs w)\<rparr>"

text \<open>
  The loop of \<^verbatim>\<open>_read_chunks\<close>: \<open>rest\<close> is what of the body is still to be read, and
  \<^verbatim>\<open>response.read(chunk_size)\<close> takes its next \<open>chunk_size\<close> bytes.
\<close>

function read_loop ::
  "env \<Rightarrow> temp_file \<Rightarrow> bool \<Rightarrow> nat \<Rightarrow> int \<Rightarrow> string \<Rightarrow> int \<Rightarrow> int io" where
  "read_loop e output_file brk chunk_size total_size rest bytes_so_far w =
     (if take chunk_size rest = [] then
        (if brk then (Inl IOError, w)
         else (Inr bytes_so_far, file_write output_file [] w))
      else
        (case print_progress e (bytes_so_far + int (length (take chunk_size rest))) total_size
                (file_write output_file (take chunk_size rest) w) of
           (Inl err, w2) \<Rightarrow> (Inl err, w2)
         | (Inr u, w2) \<Rightarrow>
             read_loop e output_file brk chunk_size total_size (drop chunk_size rest)
               (bytes_so_far + int (length (take chunk_size rest))) w2))"
  by pat_completeness auto
termination
  by (relation "measure (\<lambda>(e, output_file, brk, chunk_size, total_size, rest, bytes_so_far, w). length rest)")
     auto

declare read_loop.simps [simp del]

definition read_chunks :: "env \<Rightarrow> temp_file \<Rightarrow> response \<Rightarrow> nat \<Rightarrow> int io" where
  "read_chunks e output_file rsp chunk_size w =
     (case content_length rsp of
        None \<Rightarrow> (Inl AttributeError, w)
      | Some header \<Rightarrow>
          (case py_int (strip header) of
             Inl err \<Rightarrow> (Inl err, w)
           | Inr total_size \<Rightarrow>
               read_loop e output_file (broken rsp) chunk_size total_size (body rsp) 0 w))"

text \<open>
  The steps of \<^verbatim>\<open>_perform_download\<close>, one definition for each call that reaches outside
  the process.  \<^verbatim>\<open>tempfile.mkdtemp\<close> makes a directory that was not there before.
\<close>

definition fresh_temp :: "nat list \<Rightarrow> nat" where
  "fresh_temp ts = Suc (foldr max ts 0)"

definition mkdtemp :: "nat io" where
  "mkdtemp w =
     (let t = fresh_temp (map fst (temp_dirs w))
      in (Inr t, record_call (Mkdtemp t) (w\<lparr>temp_dirs := (t, []) # temp_dirs w\<rparr>)))"

definition rmtree_temp :: "nat \<Rightarrow> unit io" where
  "rmtree_temp t w = (Inr (), record_call (RmtreeTemp t) (w\<lparr>temp_dirs := AList.delete t (temp_dirs w)\<rparr>))"

definition urlopen :: "env \<Rightarrow> string \<Rightarrow> response io" where
  "urlopen e url w =
     (case remote e url of
        Raises err \<Rightarrow> (Inl err, record_call (Urlopen url) w)
      | Answer rsp \<Rightarrow> (Inr rsp, record_call (Urlopen url) w))"

definition open_temp_file :: "nat \<Rightarrow> string \<Rightarrow> temp_file io" where
  "open_temp_file t name w =
     (Inr (t, name), w\<lparr>temp_dirs := AList.map_entry t (AList.update name []) (temp_dirs w)\<rparr>)"

definition rmtree :: "env \<Rightarrow> unit io" where
  "rmtree e w =
     (case resources w of
        Directory files \<Rightarrow>
          (case rmtree_fault e of
             None \<Rightarrow> (Inr (), record_call Rmtree (w\<lparr>resources := NoEntry\<rparr>))
           | Some left \<Rightarrow>
               (Inl OSError,
                record_call Rmtree
                  (w\<lparr>resources := Directory (filter (\<lambda>f. fst f \<in> set left) files)\<rparr>)))
      | _ \<Rightarrow> (Inl OSError, record_call Rmtree w))"

definition mkdir :: "unit io" where
  "mkdir w =
     (case resources w of
        NoEntry \<Rightarrow> (Inr (), record_call Mkdir (w\<lparr>resources := Directory []\<rparr>))
      | _ \<Rightarrow> (Inl OSError, record_call Mkdir w))"

definition tarfile_open :: "env \<Rightarrow> temp_file \<Rightarrow> (string \<times> string) list io" where
  "tarfile_open e f w =
     (case map_of (temp_dirs w) (fst f) of
        None \<Rightarrow> (Inl IOError, w)
      | Some d \<Rightarrow>
          (case map_of d (snd f) of
             None \<Rightarrow> (Inl IOError, w)
           | Some data \<Rightarrow>
               (case untar e data of
                  None \<Rightarrow> (Inl ReadError, w)
                | Some members \<Rightarrow> (Inr members, w))))"

definition extract_members :: "(string \<times> string) list \<Rightarrow> dir \<Rightarrow> dir" where
  "extract_members members files = foldl (\<lambda>d m. AList.update (fst m) (snd m) d) files members"

definition extractall :: "env \<Rightarrow> (string \<times> string) list \<Rightarrow> unit io" where
  "extractall e members w =
     (case resources w of
        Directory files \<Rightarrow>
          (case extract_fault e of
             None \<Rightarrow>
               (Inr (), record_call Extract (w\<lparr>resources := Directory (extract_members members files)\<rparr>))
           | Some k \<Rightarrow>
               (Inl IOError,
                record_call Extract
                  (w\<lparr>resources := Directory (extract_members (take k members) files)\<rparr>)))
      | _ \<Rightarrow> (Inl OSError, record_call Extract w))"

definition open_version_file :: "env \<Rightarrow> unit io" where
  "open_version_file e w =
     (case resources w of
        Directory files \<Rightarrow>
          (if marker_fault e then (Inl IOError, w)
           else (Inr (), w\<lparr>resources := Directory (AList.update VERSION_FILENAME [] files)\<rparr>))
      | _ \<Rightarrow> (Inl IOError, w))"

definition write_version :: "int \<Rightarrow> unit io" where
  "write_version desired_version w =
     (case resources w of
        Directory files \<Rightarrow>
          (Inr (),
           record_call (WriteVersion desired_version)
             (w\<lparr>resources := Directory (AList.update VERSION_FILENAME (str_int desired_version) files)\<rparr>))
      | _ \<Rightarrow> (Inl IOError, w))"

definition archive_name :: "int \<Rightarrow> string" where
  "archive_name desired_version = FILENAME_PREFIX @ str_int desired_version @ EXTENSION"

definition with_slash :: "string \<Rightarrow> string" where
  "with_slash base_url =
     (if base_url \<noteq> [] \<and> last base_url = CHR ''/'' then base_url else base_url @ ''/'')"

definition remote_archive_url :: "string \<Rightarrow> int \<Rightarrow> py_error + string" where
  "remote_archive_url base_url desired_version =
     urljoin (with_slash base_url) (archive_name desired_version)"

text \<open>The body of the \<^verbatim>\<open>try\<close> of \<^verbatim>\<open>_perform_download\<close>, for the temporary directory \<open>temp_dir\<close>.\<close>

definition download_steps :: "env \<Rightarrow> string \<Rightarrow> int \<Rightarrow> nat \<Rightarrow> unit io" where
  "download_steps e base_url desired_version temp_dir =
     bindE (\<lambda>w. (remote_archive_url base_url desired_version, w)) (\<lambda>url.
     bindE (effect (print (''Downloading: '' @ url))) (\<lambda>u.
     bindE (urlopen e url) (\<lambda>rsp.
     bindE (open_temp_file temp_dir (archive_name desired_version)) (\<lambda>temp_file.
     bindE (read_chunks e temp_file rsp (10 * 1024)) (\<lambda>n.
     bindE (effect (print (''Removing old resources in '' @ downloads_path e))) (\<lambda>u.
     bindE (rmtree e) (\<lambda>u.
     bindE mkdir (\<lambda>u.
     bindE (tarfile_open e temp_file) (\<lambda>archive.
     bindE (extractall e archive) (\<lambda>u.
     bindE (effect (print (''Extracted resource files into '' @ downloads_path e))) (\<lambda>u.
     bindE (open_version_file e) (\<lambda>u.
     write_version desired_version))))))))))))"

definition perform_download :: "env \<Rightarrow> string \<Rightarrow> int \<Rightarrow> unit io" where
  "perform_download e base_url desired_version =
     bindE mkdtemp (\<lambda>temp_dir.
       try_finally (download_steps e base_url desired_version temp_dir) (rmtree_temp temp_dir))"

text \<open>
  \<^verbatim>\<open>main\<close>.  The environment variable counts when it is set to a non-empty string; a base
  URL given on the command line counts when it is not empty.
\<close>

definition ensure_downloads_dir :: "unit io" where
  "ensure_downloads_dir w = (case resources w of Directory files \<Rightarrow> (Inr (), w) | _ \<Rightarrow> mkdir w)"

definition chosen_base_url :: "options \<Rightarrow> string" where
  \<comment> \<open>\<^verbatim>\<open>options.base_url or REMOTE_URL_BASE\<close>\<close>
  "chosen_base_url opts =
     (case opt_base_url opts of
        None \<Rightarrow> REMOTE_URL_BASE
      | Some b \<Rightarrow> if b = [] then REMOTE_URL_BASE else b)"

definition main :: "env \<Rightarrow> options \<Rightarrow> unit io" where
  "main e opts w =
     (if skip_variable e \<noteq> None \<and> skip_variable e \<noteq> Some [] then
        (Inr (), print ''Skipping resources download since WEBRTC_SKIP_RESOURCES_DOWNLOAD set'' w)
      else
        bindE ensure_downloads_dir (\<lambda>u.
        bindE get_current_version (\<lambda>current_version.
        bindE (get_desired_version e) (\<lambda>desired_version.
          if desired_version \<noteq> current_version \<or> opt_force opts then
            perform_download e (chosen_base_url opts) desired_version
          else
            effect (print (''Already have correct version: '' @ str_int current_version))))) w)"

subsection \<open>Observations on a world\<close>

text \<open>
  The version marker as the script finds it, and the calls a run added to the record.
\<close>

definition marker :: "world \<Rightarrow> string option" where
  "marker w = (case resources w of Directory files \<Rightarrow> map_of files VERSION_FILENAME | _ \<Rightarrow> None)"

definition new_calls :: "world \<Rightarrow> world \<Rightarrow> event list" where
  "new_calls w w' = drop (length (calls w)) (calls w')"

fun is_mkdtemp :: "event \<Rightarrow> bool" where
  "is_mkdtemp (Mkdtemp t) = True"
| "is_mkdtemp ev = False"

subsection \<open>A setting to run the script in\<close>

text \<open>
  A DEPS file that asks for version \<open>v\<close>, a host that answers every request with \<open>h\<close>, a
  disk without faults, and an archive of one file.  The percentage is the one of a
  download that is complete.
\<close>

definition example_env :: "int \<Rightarrow> http_result \<Rightarrow> env" where
  "example_env v h =
     \<lparr>skip_variable = None, downloads_path = ''/src/resources'',
      deps_vars = Inr [(''webrtc_resources_revision'', PyInt v)],
      remote = (\<lambda>url. h),
      untar = (\<lambda>data. if data = ''tgz'' then Some [(''audio.pcm'', ''A'')] else None),
      percent_text = (\<lambda>b t. ''100.00''),
      rmtree_fault = None, extract_fault = None, marker_fault = False\<rparr>"

definition no_resources :: world where
  "no_resources = \<lparr>resources = NoEntry, temp_dirs = [], stdout = [], calls = []\<rparr>"

definition plain_options :: options where
  "plain_options = \<lparr>opt_force = False, opt_base_url = None\<rparr>"

subsection \<open>The three phases of a download\<close>

text \<open>
  The steps of \<^verbatim>\<open>_perform_download\<close> in three groups: what fetches the archive into
  the temporary directory, what installs it in place of the resources directory, and
  what records the version.  (That the steps are these three groups, one after the
  other, is \<open>download_steps_phases\<close> below.)
\<close>

definition fetch :: "env \<Rightarrow> string \<Rightarrow> int \<Rightarrow> nat \<Rightarrow> temp_file io" where
  "fetch e base_url desired_version temp_dir =
     bindE (\<lambda>w. (remote_archive_url base_url desired_version, w)) (\<lambda>url.
     bindE (effect (print (''Downloading: '' @ url))) (\<lambda>u.
     bindE (urlopen e url) (\<lambda>rsp.
     bindE (open_temp_file temp_dir (archive_name desired_version)) (\<lambda>temp_file.
     bindE (read_chunks e temp_file rsp (10 * 1024)) (\<lambda>n.
     returnE temp_file)))))"

definition install :: "env \<Rightarrow> temp_file \<Rightarrow> unit io" where
  "install e temp_file =
     bindE (effect (print (''Removing old resources in '' @ downloads_path e))) (\<lambda>u.
     bindE (rmtree e) (\<lambda>u.
     bindE mkdir (\<lambda>u.
     bindE (tarfile_open e temp_file) (\<lambda>archive.
     bindE (extractall e archive) (\<lambda>u.
     effect (print (''Extracted resource files into '' @ downloads_path e)))))))"

definition record_version :: "env \<Rightarrow> int \<Rightarrow> unit io" where
  "record_version e desired_version =
     bindE (open_version_file e) (\<lambda>u. write_version desired_version)"

text \<open>The files of the resources directory: none when the directory is not there.\<close>

definition dir_files :: "fsnode \<Rightarrow> dir" where
  "dir_files node = (case node of Directory files \<Rightarrow> files | _ \<Rightarrow> [])"

text \<open>
  The failures of a fetch that the answer of the host decides: \<^verbatim>\<open>urlopen\<close> raises, the
  answer has no \<^verbatim>\<open>Content-Length\<close> header (\<^verbatim>\<open>getheader\<close> returns \<^verbatim>\<open>None\<close>, which has no
  \<^verbatim>\<open>strip\<close>), or the header is not an integer.
\<close>

definition fetch_error :: "http_result \<Rightarrow> py_error option" where
  "fetch_error h =
     (case h of
        Raises err \<Rightarrow> Some err
      | Answer rsp \<Rightarrow>
          (case content_length rsp of
             None \<Rightarrow> Some AttributeError
           | Some header \<Rightarrow>
               (case py_int (strip header) of Inl err \<Rightarrow> Some err | Inr total_size \<Rightarrow> None)))"

text \<open>A resources directory that holds version 11.\<close>

definition old_resources :: world where
  "old_resources =
     \<lparr>resources = Directory [(''old.wav'', ''O''), (''webrtc-resources-version'', ''11'')],
      temp_dirs = [], stdout = [], calls = []\<rparr>"

subsection \<open>What a download prints\<close>

text \<open>
  The reads of a body, \<open>n\<close> bytes at a time; the line \<^verbatim>\<open>_print_progress\<close> writes; and what
  the loop of \<^verbatim>\<open>_read_chunks\<close> writes for a list of chunks when \<open>b\<close> bytes were read before
  them: after each chunk its line and, when the bytes read so far have reached the
  total, a newline.  \<open>progress_lines\<close> is the same without the newlines.
\<close>

function chunks :: "nat \<Rightarrow> string \<Rightarrow> string list" where
  "chunks n xs = (if take n xs = [] then [] else take n xs # chunks n (drop n xs))"
  by pat_completeness auto
termination
  by (relation "measure (\<lambda>(n, xs). length xs)") auto

declare chunks.simps [simp del]

definition progress_line :: "env \<Rightarrow> int \<Rightarrow> int \<Rightarrow> string" where
  "progress_line e bytes_so_far total_size =
     ''Downloaded '' @ str_int (bytes_so_far div 1024) @ '' of ''
       @ str_int (total_size div 1024) @ '' kB (''
       @ percent_text e bytes_so_far total_size @ ''%)'' @ [CHR 0x0D]"

fun progress_output :: "env \<Rightarrow> int \<Rightarrow> int \<Rightarrow> string list \<Rightarrow> string" where
  "progress_output e t b [] = []"
| "progress_output e t b (c # cs) =
     progress_line e (b + int (length c)) t
       @ (if t \<le> b + int (length c) then [CHR 0x0A] else [])
       @ progress_output e t (b + int (length c)) cs"

fun progress_lines :: "env \<Rightarrow> int \<Rightarrow> int \<Rightarrow> string list \<Rightarrow> string" where
  "progress_lines e t b [] = []"
| "progress_lines e t b (c # cs) =
     progress_line e (b + int (length c)) t @ progress_lines e t (b + int (length c)) cs"

text \<open>A host that answers with five of the ten bytes it announced, and the percentage of that.\<close>

definition short_answer :: response where
  "short_answer = \<lparr>content_length = Some ''10'', body = ''hello'', broken = False\<rparr>"

definition half_env :: env where
  "half_env = (example_env 12 (Answer short_answer))\<lparr>percent_text := (\<lambda>b t. ''50.00'')\<rparr>"

subsection \<open>Base URLs that name a directory\<close>

text \<open>
  A URL of a scheme for which \<^verbatim>\<open>urljoin\<close> resolves relative references and that has a
  network location (\<^verbatim>\<open>http\<close>, \<^verbatim>\<open>https\<close>, \<^verbatim>\<open>ftp\<close> and the like), with a host and, after it,
  nothing but a path: no query, no fragment, no parameters, and no segment \<^verbatim>\<open>.\<close> or
  \<^verbatim>\<open>..\<close> in the path.
\<close>

definition plain_base :: "string \<Rightarrow> bool" where
  "plain_base b =
     (let scheme = takeWhile (\<lambda>c. c \<noteq> CHR '':'') b;
          rest = drop 3 (dropWhile (\<lambda>c. c \<noteq> CHR '':'') b);
          host = takeWhile (\<lambda>c. c \<noteq> CHR ''/'') rest
      in scheme \<noteq> [] \<and> scheme \<in> set uses_relative \<and> scheme \<in> set uses_netloc
         \<and> take 3 (dropWhile (\<lambda>c. c \<noteq> CHR '':'') b) = ''://''
         \<and> host \<noteq> [] \<and> \<not> bad_brackets host
         \<and> list_all (\<lambda>c. c \<notin> set ''?#;'') rest
         \<and> list_all (\<lambda>s. s \<noteq> ''.'' \<and> s \<noteq> ''..'')
              (split_on CHR ''/'' (dropWhile (\<lambda>c. c \<noteq> CHR ''/'') rest)))"

section \<open>Properties\<close>

subsection \<open>Printing an integer and reading it back\<close>

lemma digit_val_digit_char: "d < 10 \<Longrightarrow> digit_val (digit_char d) = d"
proof -
  assume "d < 10"
  then consider "d = 0" | "d = 1" | "d = 2" | "d = 3" | "d = 4" | "d = 5" | "d = 6" | "d = 7" | "d = 8" | "d = 9"
    by atomize_elim arith
  then show ?thesis
    by cases (simp_all add: digit_val_def digit_char_def)
qed

lemma is_digit_digit_char: "d < 10 \<Longrightarrow> is_digit (digit_char d)"
proof -
  assume "d < 10"
  then consider "d = 0" | "d = 1" | "d = 2" | "d = 3" | "d = 4" | "d = 5" | "d = 6" | "d = 7" | "d = 8" | "d = 9"
    by atomize_elim arith
  then show ?thesis
    by cases (simp_all add: is_digit_def digit_char_def)
qed

lemma is_digit_not_space: "is_digit c \<Longrightarrow> \<not> is_space c"
  by (auto simp: is_digit_def is_space_def)

lemma is_digit_not_sign: "is_digit c \<Longrightarrow> c \<noteq> CHR ''-'' \<and> c \<noteq> CHR ''+''"
  by (auto simp: is_digit_def)

lemma digits_all_digit: "list_all is_digit (digits n)"
proof (induction n rule: digits.induct)
  case (1 n)
  show ?case
  proof (cases "n < 10")
    case True
    then show ?thesis by (simp add: digits.simps [of n] is_digit_digit_char)
  next
    case False
    with 1 show ?thesis by (simp add: digits.simps [of n] is_digit_digit_char)
  qed
qed

lemma digits_nonempty: "digits n \<noteq> []"
  by (subst digits.simps) simp

lemma digits_val_snoc: "digits_val (ds @ [c]) = digits_val ds * 10 + digit_val c"
  by (simp add: digits_val_def)

lemma digits_val_digits: "digits_val (digits n) = n"
proof (induction n rule: digits.induct)
  case (1 n)
  show ?case
  proof (cases "n < 10")
    case True
    then show ?thesis by (simp add: digits.simps [of n] digits_val_def digit_val_digit_char)
  next
    case False
    with 1 have "digits_val (digits (n div 10)) = n div 10" by simp
    with False show ?thesis
      by (simp add: digits.simps [of n] digits_val_snoc digit_val_digit_char)
  qed
qed

lemma unsigned_int_digits: "unsigned_int (digits n) = Inr n"
  by (simp add: unsigned_int_def digits_nonempty digits_all_digit digits_val_digits)

lemma strip_no_space:
  assumes "s \<noteq> []" "\<not> is_space (hd s)" "\<not> is_space (last s)"
  shows "strip s = s"
proof -
  from assms have a: "dropWhile is_space s = s" by (cases s) auto
  from assms have "rev s \<noteq> []" "\<not> is_space (hd (rev s))" by (simp_all add: hd_rev)
  then have "dropWhile is_space (rev s) = rev s" by (cases "rev s") auto
  with a show ?thesis by (simp add: strip_def)
qed

lemma digits_hd: "is_digit (hd (digits n))"
  using digits_all_digit [of n] digits_nonempty [of n] by (cases "digits n") auto

lemma digits_last: "is_digit (last (digits n))"
  using digits_all_digit [of n] digits_nonempty [of n]
  by (metis last_in_set list_all_iff)

lemma py_int_str_int: "py_int (str_int i) = Inr i"
proof (cases "i < 0")
  case True
  have "strip (CHR ''-'' # digits (nat (- i))) = CHR ''-'' # digits (nat (- i))"
    by (rule strip_no_space) (use digits_last digits_nonempty is_digit_not_space in \<open>auto simp: is_space_def\<close>)
  with True show ?thesis
    by (simp add: py_int_def str_int_def unsigned_int_digits)
next
  case False
  have s: "strip (digits (nat i)) = digits (nat i)"
    by (rule strip_no_space) (use digits_last digits_hd digits_nonempty is_digit_not_space in auto)
  obtain c r where cr: "digits (nat i) = c # r"
    using digits_nonempty [of "nat i"] by (cases "digits (nat i)") auto
  with digits_hd [of "nat i"] have "c \<noteq> CHR ''-''" "c \<noteq> CHR ''+''"
    using is_digit_not_sign by auto
  with False s cr unsigned_int_digits [of "nat i"] show ?thesis
    by (simp add: py_int_def str_int_def)
qed

subsection \<open>The two reads\<close>

lemma get_current_version_no_marker: "marker w = None \<Longrightarrow> get_current_version w = (Inr 0, w)"
  by (simp add: marker_def get_current_version_def split: fsnode.splits)

lemma get_current_version_marker:
  "marker w = Some (str_int v) \<Longrightarrow>
   get_current_version w = (Inr v, print (''Found downloaded resources: version: '' @ str_int v) w)"
  by (simp add: marker_def get_current_version_def py_int_str_int split: fsnode.splits)

lemma get_desired_version_any_world:
  assumes "fst (get_desired_version e w) = Inr d"
  shows "get_desired_version e w' = (Inr d, print (''Version in DEPS file: '' @ str_int d) w')"
  using assms
  by (auto simp: get_desired_version_def split: sum.splits option.splits)

lemma ensure_downloads_dir_cases:
  "resources w \<noteq> RegularFile \<Longrightarrow>
   ensure_downloads_dir w =
     (Inr (), if resources w = NoEntry then record_call Mkdir (w\<lparr>resources := Directory []\<rparr>) else w)"
  by (simp add: ensure_downloads_dir_def mkdir_def split: fsnode.splits)

lemma marker_ensure_downloads_dir: "marker (snd (ensure_downloads_dir w)) = marker w"
  by (simp add: ensure_downloads_dir_def mkdir_def marker_def record_call_def split: fsnode.splits)

lemma str_int_0: "str_int 0 = ''0''"
  by (simp add: str_int_def digits.simps digit_char_def)

lemma new_calls_same [simp]: "calls w' = calls w \<Longrightarrow> new_calls w w' = []"
  by (simp add: new_calls_def)

lemma new_calls_append [simp]: "calls w' = calls w @ evs \<Longrightarrow> new_calls w w' = evs"
  by (simp add: new_calls_def)

lemma calls_print [simp]: "calls (print s w) = calls w"
  by (simp add: print_def write_stdout_def)

lemma resources_print [simp]: "resources (print s w) = resources w"
  by (simp add: print_def write_stdout_def)

lemma temp_dirs_print [simp]: "temp_dirs (print s w) = temp_dirs w"
  by (simp add: print_def write_stdout_def)

lemma stdout_print [simp]: "stdout (print s w) = stdout w @ s @ [CHR 0x0A]"
  by (simp add: print_def write_stdout_def)

lemma marker_print [simp]: "marker (print s w) = marker w"
  by (simp add: marker_def)

text \<open>
  C6.  When the marker file does not exist, the current version reads as 0.  So,
  when the DEPS file asks for version 0, there is no marker file and the download is not
  forced, \<^verbatim>\<open>main\<close> ends well having only reported that the version is the right one:
  what it printed are the version of the DEPS file and that report, and it started no
  download.
\<close>

theorem missing_marker_reads_as_0:
  assumes "marker w = None"
  shows "get_current_version w = (Inr 0, w) \<and>
         ((skip_variable e = None \<or> skip_variable e = Some []) \<and> resources w \<noteq> RegularFile
            \<and> fst (get_desired_version e w) = Inr 0 \<and> \<not> opt_force opts \<longrightarrow>
          main e opts w =
            (Inr (), print ''Already have correct version: 0''
                       (print ''Version in DEPS file: 0'' (snd (ensure_downloads_dir w))))
          \<and> \<not> list_ex is_mkdtemp (new_calls w (snd (main e opts w))))"
proof (intro conjI impI)
  show "get_current_version w = (Inr 0, w)"
    using assms by (rule get_current_version_no_marker)
next
  assume h: "(skip_variable e = None \<or> skip_variable e = Some []) \<and> resources w \<noteq> RegularFile
      \<and> fst (get_desired_version e w) = Inr 0 \<and> \<not> opt_force opts"
  define w0 where "w0 = snd (ensure_downloads_dir w)"
  from h have e: "ensure_downloads_dir w = (Inr (), w0)"
    by (simp add: w0_def ensure_downloads_dir_cases)
  have "marker w0 = None"
    using assms by (simp add: w0_def marker_ensure_downloads_dir)
  then have c: "get_current_version w0 = (Inr 0, w0)"
    by (rule get_current_version_no_marker)
  from h have d: "get_desired_version e w0 = (Inr 0, print (''Version in DEPS file: '' @ str_int 0) w0)"
    by (intro get_desired_version_any_world [of e w]) simp
  from h e c d show m: "main e opts w =
      (Inr (), print ''Already have correct version: 0'' (print ''Version in DEPS file: 0'' w0))"
    by (auto simp: main_def bindE_def effect_def str_int_0)
  have "calls w0 = calls w @ (if resources w = NoEntry then [Mkdir] else [])"
    using h by (simp add: w0_def ensure_downloads_dir_cases record_call_def)
  then show "\<not> list_ex is_mkdtemp (new_calls w (snd (main e opts w)))"
    by (simp add: m)
qed

theorem missing_marker_reads_as_0_witness:
  "marker no_resources = None \<and>
   get_current_version no_resources = (Inr 0, no_resources) \<and>
   main (example_env 0 (Raises URLError)) plain_options no_resources =
     (Inr (), \<lparr>resources = Directory [], temp_dirs = [],
               stdout = ''Version in DEPS file: 0'' @ [CHR 0x0A]
                          @ ''Already have correct version: 0'' @ [CHR 0x0A],
               calls = [Mkdir]\<rparr>)"
  using missing_marker_reads_as_0 [of no_resources "example_env 0 (Raises URLError)" plain_options]
  by (simp add: marker_def no_resources_def example_env_def plain_options_def
      get_desired_version_def DEPS_KEY_def int_of_pyval_def str_int_0
      ensure_downloads_dir_def mkdir_def record_call_def print_def write_stdout_def)

subsection \<open>Sequencing\<close>

lemma bindE_assoc: "bindE (bindE m f) g = bindE m (\<lambda>x. bindE (f x) g)"
  by (rule ext) (simp add: bindE_def split: prod.splits sum.splits)

lemma returnE_bindE: "bindE (returnE x) f = f x"
  by (rule ext) (simp add: bindE_def returnE_def)

lemma download_steps_phases:
  "download_steps e base_url desired_version temp_dir =
     bindE (fetch e base_url desired_version temp_dir) (\<lambda>temp_file.
     bindE (install e temp_file) (\<lambda>u. record_version e desired_version))"
  by (simp add: download_steps_def fetch_def install_def record_version_def bindE_assoc returnE_bindE)

subsection \<open>What each step leaves alone\<close>

lemma print_progress_frame:
  "print_progress e b t w = (r, w') \<Longrightarrow>
   calls w' = calls w \<and> resources w' = resources w \<and> temp_dirs w' = temp_dirs w"
  by (auto simp: print_progress_def write_stdout_def Let_def split: if_splits)

lemma file_write_frame [simp]:
  "calls (file_write f d w) = calls w" "resources (file_write f d w) = resources w"
  "stdout (file_write f d w) = stdout w"
  by (simp_all add: file_write_def)

lemma delete_map_entry: "AList.delete k (AList.map_entry k f al) = AList.delete k al"
  by (induction al) (auto simp: AList.delete_eq)

lemma file_write_delete [simp]:
  "AList.delete (fst f) (temp_dirs (file_write f d w)) = AList.delete (fst f) (temp_dirs w)"
  by (simp add: file_write_def delete_map_entry)

lemma read_loop_frame:
  "read_loop e f brk cs t rest b w = (r, w') \<Longrightarrow>
   calls w' = calls w \<and> resources w' = resources w
   \<and> AList.delete (fst f) (temp_dirs w') = AList.delete (fst f) (temp_dirs w)"
proof (induction e f brk cs t rest b w arbitrary: r w' rule: read_loop.induct)
  case (1 e f brk cs t rest b w)
  show ?case
  proof (cases "take cs rest = []")
    case True
    with "1.prems" show ?thesis
      by (auto simp: read_loop.simps [of e f brk cs t rest b w] split: if_splits)
  next
    case False
    obtain r1 w1 where p: "print_progress e (b + int (length (take cs rest))) t
        (file_write f (take cs rest) w) = (r1, w1)"
      by (cases "print_progress e (b + int (length (take cs rest))) t (file_write f (take cs rest) w)")
    from print_progress_frame [OF p]
    have w1: "calls w1 = calls w" "resources w1 = resources w"
      "AList.delete (fst f) (temp_dirs w1) = AList.delete (fst f) (temp_dirs w)"
      by simp_all
    show ?thesis
    proof (cases r1)
      case (Inl err)
      with False p "1.prems" have "w' = w1"
        by (simp add: read_loop.simps [of e f brk cs t rest b w])
      with w1 show ?thesis by simp
    next
      case (Inr u)
      with False p "1.prems"
      have "read_loop e f brk cs t (drop cs rest) (b + int (length (take cs rest))) w1 = (r, w')"
        by (simp add: read_loop.simps [of e f brk cs t rest b w])
      from "1.IH" [OF False p [symmetric] Inr this] w1 show ?thesis by simp
    qed
  qed
qed

lemma read_chunks_frame:
  "read_chunks e f rsp cs w = (r, w') \<Longrightarrow>
   calls w' = calls w \<and> resources w' = resources w
   \<and> AList.delete (fst f) (temp_dirs w') = AList.delete (fst f) (temp_dirs w)"
  by (auto simp: read_chunks_def split: option.splits sum.splits dest: read_loop_frame)

subsection \<open>The phases, one by one\<close>

lemma fetch_cases:
  assumes "fetch e b d t w = (r, w')"
  shows "resources w' = resources w
    \<and> AList.delete t (temp_dirs w') = AList.delete t (temp_dirs w)
    \<and> calls w' = calls w @ (case remote_archive_url b d of Inl err \<Rightarrow> [] | Inr url \<Rightarrow> [Urlopen url])
    \<and> (\<forall>f. r = Inr f \<longrightarrow> f = (t, archive_name d))"
proof (cases "remote_archive_url b d")
  case (Inl err)
  with assms show ?thesis by (auto simp: fetch_def bindE_def)
next
  case (Inr url)
  show ?thesis
  proof (cases "remote e url")
    case (Raises err)
    with Inr assms show ?thesis
      by (auto simp: fetch_def bindE_def effect_def urlopen_def record_call_def)
  next
    case (Answer rsp)
    define w1 where "w1 = record_call (Urlopen url) (print (''Downloading: '' @ url) w)"
    define w2 where "w2 = w1\<lparr>temp_dirs := AList.map_entry t (AList.update (archive_name d) []) (temp_dirs w1)\<rparr>"
    obtain r3 w3 where rc: "read_chunks e (t, archive_name d) rsp (10 * 1024) w2 = (r3, w3)"
      by (cases "read_chunks e (t, archive_name d) rsp (10 * 1024) w2")
    from read_chunks_frame [OF rc]
    have f3: "calls w3 = calls w2" "resources w3 = resources w2"
      "AList.delete t (temp_dirs w3) = AList.delete t (temp_dirs w2)" by simp_all
    have f2: "calls w2 = calls w @ [Urlopen url]" "resources w2 = resources w"
      "AList.delete t (temp_dirs w2) = AList.delete t (temp_dirs w)"
      by (simp_all add: w2_def w1_def record_call_def delete_map_entry)
    from Inr Answer rc assms have "w' = w3 \<and> (\<forall>f. r = Inr f \<longrightarrow> f = (t, archive_name d))"
      by (auto simp: fetch_def bindE_def effect_def urlopen_def open_temp_file_def returnE_def
          w2_def w1_def split: sum.splits)
    with f2 f3 Inr show ?thesis by simp
  qed
qed

lemma install_cases:
  assumes "install e f w = (r, w')"
  shows "temp_dirs w' = temp_dirs w
    \<and> (\<exists>k. 1 \<le> k \<and> k \<le> 3 \<and> calls w' = calls w @ take k [Rmtree, Mkdir, Extract]
           \<and> (r = Inr () \<longrightarrow> k = 3))"
proof -
  have t: "take 1 [Rmtree, Mkdir, Extract] = [Rmtree]" "take 2 [Rmtree, Mkdir, Extract] = [Rmtree, Mkdir]"
    "take 3 [Rmtree, Mkdir, Extract] = [Rmtree, Mkdir, Extract]"
    by (simp_all add: numeral_2_eq_2 numeral_3_eq_3)
  have k: "\<And>n::nat. n = 1 \<or> n = 2 \<or> n = 3 \<Longrightarrow> 1 \<le> n \<and> n \<le> 3" by auto
  from assms have
    "temp_dirs w' = temp_dirs w \<and>
     ((calls w' = calls w @ [Rmtree] \<and> r \<noteq> Inr ())
      \<or> (calls w' = calls w @ [Rmtree, Mkdir] \<and> r \<noteq> Inr ())
      \<or> (calls w' = calls w @ [Rmtree, Mkdir, Extract] \<and> r \<noteq> Inr () \<and> extract_fault e \<noteq> None)
      \<or> (calls w' = calls w @ [Rmtree, Mkdir, Extract] \<and> r = Inr () \<and> extract_fault e = None))"
    by (auto simp: install_def bindE_def effect_def rmtree_def mkdir_def tarfile_open_def
        extractall_def record_call_def split: fsnode.splits option.splits)
  then show ?thesis
    apply (elim conjE disjE)
    subgoal by (intro conjI exI [of _ 1]) (simp_all add: t)
    subgoal by (intro conjI exI [of _ 2]) (simp_all add: t)
    subgoal by (intro conjI exI [of _ 3]) (simp_all add: t)
    subgoal by (intro conjI exI [of _ 3]) (simp_all add: t)
    done
qed

lemma record_version_cases:
  assumes "record_version e d w = (r, w')"
  shows "temp_dirs w' = temp_dirs w
    \<and> (r = Inr () \<longrightarrow> calls w' = calls w @ [WriteVersion d] \<and> marker w' = Some (str_int d))
    \<and> (r \<noteq> Inr () \<longrightarrow> calls w' = calls w)"
  using assms
  by (auto simp: record_version_def bindE_def open_version_file_def write_version_def
      record_call_def marker_def update_conv' split: fsnode.splits if_splits)

lemma foldr_max_ge: "x \<in> set ts \<Longrightarrow> x \<le> foldr max ts (0::nat)"
  by (induction ts) auto

lemma fresh_temp_new: "fresh_temp ts \<notin> set ts"
  using foldr_max_ge [of "fresh_temp ts" ts] by (auto simp: fresh_temp_def)

lemma delete_absent: "k \<notin> fst ` set al \<Longrightarrow> AList.delete k al = al"
  by (induction al) (auto simp: AList.delete_eq)

lemma mkdtemp_cases:
  "mkdtemp w = (Inr (fresh_temp (map fst (temp_dirs w))),
     record_call (Mkdtemp (fresh_temp (map fst (temp_dirs w))))
       (w\<lparr>temp_dirs := (fresh_temp (map fst (temp_dirs w)), []) # temp_dirs w\<rparr>))"
  by (simp add: mkdtemp_def Let_def)

text \<open>
  What a download does, whatever its outcome: the record of its calls, the temporary
  directories, and where it stops when a phase fails.
\<close>

lemma perform_download_trace:
  assumes "perform_download e b d w = (r, w')"
  defines "t \<equiv> fresh_temp (map fst (temp_dirs w))"
  defines "w0 \<equiv> snd (mkdtemp w)"
  shows "temp_dirs w' = temp_dirs w"
    and "\<exists>k url. 1 \<le> k \<and> k \<le> 6
          \<and> calls w' = calls w @ take k [Mkdtemp t, Urlopen url, Rmtree, Mkdir, Extract, WriteVersion d]
                         @ [RmtreeTemp t]
          \<and> (r = Inr () \<longleftrightarrow> k = 6)
          \<and> (k \<le> 2 \<longleftrightarrow> (\<exists>err. fst (fetch e b d t w0) = Inl err))
          \<and> (k \<le> 2 \<longrightarrow> resources w' = resources w)"
    and "r = Inr () \<Longrightarrow> marker w' = Some (str_int d)"
    and "fst (fetch e b d t w0) = Inl err \<Longrightarrow> r = Inl err"
    and "fetch e b d t w0 = (Inr f, w1) \<Longrightarrow> fst (install e f w1) = Inl err \<Longrightarrow> r = Inl err"
proof -
  let ?all = "\<lambda>url. [Mkdtemp t, Urlopen url, Rmtree, Mkdir, Extract, WriteVersion d]"
  have c0: "calls w0 = calls w @ [Mkdtemp t]" and r0: "resources w0 = resources w"
    and t0: "temp_dirs w0 = (t, []) # temp_dirs w"
    by (simp_all add: w0_def t_def mkdtemp_cases record_call_def)
  have fresh: "t \<notin> fst ` set (temp_dirs w)"
    using fresh_temp_new [of "map fst (temp_dirs w)"] by (simp add: t_def)
  obtain rs ws where steps: "download_steps e b d t w0 = (rs, ws)"
    by (cases "download_steps e b d t w0")
  from assms(1) steps have res: "r = rs" "w' = record_call (RmtreeTemp t) (ws\<lparr>temp_dirs := AList.delete t (temp_dirs ws)\<rparr>)"
    by (simp_all add: perform_download_def bindE_def mkdtemp_cases t_def w0_def try_finally_def rmtree_temp_def)
  obtain rf wf where f: "fetch e b d t w0 = (rf, wf)" by (cases "fetch e b d t w0")
  note ff = fetch_cases [OF f]
  have "AList.delete t (temp_dirs wf) = AList.delete t ((t, []) # temp_dirs w)"
    using ff t0 by simp
  also have "\<dots> = AList.delete t (temp_dirs w)"
    by (simp add: AList.delete_eq)
  finally have delf: "AList.delete t (temp_dirs wf) = temp_dirs w"
    using fresh by (simp add: delete_absent)
  define url where "url = (case remote_archive_url b d of Inl err \<Rightarrow> [] | Inr u \<Rightarrow> u)"
  have tk: "take 1 (?all url) = [Mkdtemp t]" "take 2 (?all url) = [Mkdtemp t, Urlopen url]"
    "take 3 (?all url) = [Mkdtemp t, Urlopen url, Rmtree]"
    "take 4 (?all url) = [Mkdtemp t, Urlopen url, Rmtree, Mkdir]"
    "take 5 (?all url) = [Mkdtemp t, Urlopen url, Rmtree, Mkdir, Extract]"
    "take 6 (?all url) = ?all url"
    by (simp_all add: numeral_2_eq_2 numeral_3_eq_3 eval_nat_numeral)
  have main:
    "AList.delete t (temp_dirs ws) = temp_dirs w
     \<and> (\<exists>k. 1 \<le> k \<and> k \<le> 6 \<and> calls ws = calls w @ take k (?all url)
          \<and> (rs = Inr () \<longleftrightarrow> k = 6)
          \<and> (k \<le> 2 \<longleftrightarrow> (\<exists>err. rf = Inl err))
          \<and> (k \<le> 2 \<longrightarrow> resources ws = resources w))
     \<and> (rs = Inr () \<longrightarrow> marker ws = Some (str_int d))
     \<and> (\<forall>err. rf = Inl err \<longrightarrow> rs = Inl err)
     \<and> (\<forall>f w1 err. rf = Inr f \<and> wf = w1 \<and> fst (install e f w1) = Inl err \<longrightarrow> rs = Inl err)"
  proof (cases rf)
    case (Inl err)
    with f steps have s: "rs = Inl err" "ws = wf"
      by (simp_all add: download_steps_phases bindE_def)
    have "calls wf = calls w @ [Mkdtemp t] \<or> calls wf = calls w @ [Mkdtemp t, Urlopen url]"
      using ff c0 by (auto simp: url_def split: sum.splits)
    then have "\<exists>k. 1 \<le> k \<and> k \<le> 2 \<and> calls wf = calls w @ take k (?all url)"
    proof
      assume "calls wf = calls w @ [Mkdtemp t]"
      then show ?thesis by (intro exI [of _ 1]) (simp add: tk)
    next
      assume "calls wf = calls w @ [Mkdtemp t, Urlopen url]"
      then show ?thesis by (intro exI [of _ 2]) (simp add: tk)
    qed
    then obtain k where "1 \<le> k" "k \<le> 2" "calls wf = calls w @ take k (?all url)" by blast
    with s Inl ff r0 delf show ?thesis
      by (auto intro!: exI [of _ k])
  next
    case (Inr tf)
    with ff have tf: "tf = (t, archive_name d)" by simp
    from Inr f have "\<exists>u. remote_archive_url b d = Inr u"
      by (cases "remote_archive_url b d") (auto simp: fetch_def bindE_def)
    with ff c0 have cf: "calls wf = calls w @ [Mkdtemp t, Urlopen url]"
      by (auto simp: url_def)
    obtain ri wi where i: "install e tf wf = (ri, wi)" by (cases "install e tf wf")
    from install_cases [OF i] obtain k where
      k: "1 \<le> k" "k \<le> 3" "calls wi = calls wf @ take k [Rmtree, Mkdir, Extract]"
         "ri = Inr () \<longrightarrow> k = 3" and ti: "temp_dirs wi = temp_dirs wf"
      by blast
    have tki: "take (2 + k) (?all url) = [Mkdtemp t, Urlopen url] @ take k [Rmtree, Mkdir, Extract, WriteVersion d]"
      by (simp add: numeral_2_eq_2)
    have tk3: "take k [Rmtree, Mkdir, Extract, WriteVersion d] = take k [Rmtree, Mkdir, Extract]"
      using k(2) by (cases k rule: nat.exhaust; simp add: take_Cons' numeral_3_eq_3 split: nat.splits)
    have ci: "calls wi = calls w @ take (2 + k) (?all url)"
      using k(3) cf by (simp add: tki tk3)
    have del: "AList.delete t (temp_dirs wi) = temp_dirs w"
      using ti delf by simp
    show ?thesis
    proof (cases ri)
      case (Inl err)
      with Inr f i steps have s: "rs = Inl err" "ws = wi"
        by (simp_all add: download_steps_phases bindE_def)
      from Inl k have "k \<le> 3" by simp
      with s Inl Inr ci del k i show ?thesis
        by (auto intro!: exI [of _ "2 + k"])
    next
      case (Inr u)
      with k have k3: "k = 3" by simp
      obtain rv wv where v: "record_version e d wi = (rv, wv)" by (cases "record_version e d wi")
      from \<open>rf = Inr tf\<close> Inr f i v steps have s: "rs = rv" "ws = wv"
        by (simp_all add: download_steps_phases bindE_def)
      note vv = record_version_cases [OF v]
      show ?thesis
      proof (cases "rv = Inr ()")
        case True
        with vv ci k3 have "calls wv = calls w @ take 6 (?all url)"
          by (simp add: tk)
        with True s vv del \<open>rf = Inr tf\<close> i Inr show ?thesis
          by (auto intro!: exI [of _ 6])
      next
        case False
        with vv ci k3 have "calls wv = calls w @ take 5 (?all url)"
          by (simp add: tk)
        with False s vv del \<open>rf = Inr tf\<close> i Inr show ?thesis
          by (auto intro!: exI [of _ 5])
      qed
    qed
  qed
  from main res show "temp_dirs w' = temp_dirs w" by (simp add: record_call_def)
  from main res f show "\<exists>k url. 1 \<le> k \<and> k \<le> 6
          \<and> calls w' = calls w @ take k [Mkdtemp t, Urlopen url, Rmtree, Mkdir, Extract, WriteVersion d]
                         @ [RmtreeTemp t]
          \<and> (r = Inr () \<longleftrightarrow> k = 6)
          \<and> (k \<le> 2 \<longleftrightarrow> (\<exists>err. fst (fetch e b d t w0) = Inl err))
          \<and> (k \<le> 2 \<longrightarrow> resources w' = resources w)"
    by (auto simp: record_call_def)
  from main res show "r = Inr () \<Longrightarrow> marker w' = Some (str_int d)"
    by (simp add: record_call_def marker_def)
  from main res f show "fst (fetch e b d t w0) = Inl err \<Longrightarrow> r = Inl err" by simp
  from main res f show "fetch e b d t w0 = (Inr f, w1) \<Longrightarrow> fst (install e f w1) = Inl err \<Longrightarrow> r = Inl err"
    by (cases f) auto
qed

lemmas url_defs = remote_archive_url_def with_slash_def archive_name_def urljoin_def urlparse_def
  urlsplit_def split_tail_def split_first_def splitnetloc_def bad_brackets_def uses_params_def
  uses_relative_def uses_netloc_def urlunparse_def join_segments_def resolve_dotdot.simps
  FILENAME_PREFIX_def EXTENSION_def REMOTE_URL_BASE_def

lemmas int_defs = str_int_def digits.simps digit_char_def py_int_def strip_def is_space_def
  unsigned_int_def is_digit_def digits_val_def digit_val_def

lemmas step_defs = main_def chosen_base_url_def perform_download_def download_steps_def
  bindE_def effect_def returnE_def try_finally_def mkdtemp_def fresh_temp_def rmtree_temp_def
  urlopen_def open_temp_file_def read_chunks_def read_loop.simps print_progress_def file_write_def
  rmtree_def mkdir_def tarfile_open_def extractall_def extract_members_def open_version_file_def
  write_version_def ensure_downloads_dir_def get_current_version_def get_desired_version_def
  int_of_pyval_def DEPS_KEY_def VERSION_FILENAME_def print_def write_stdout_def record_call_def
  AList.delete_eq

lemma url_12: "remote_archive_url REMOTE_URL_BASE 12 = Inr ''http://commondatastorage.googleapis.com/webrtc-resources/webrtc-resources-12.tgz''"
  by (simp add: url_defs int_defs Let_def)

text \<open>
  The DEPS file asks for version 12, there is no resources directory, and the download
  is not forced: one fetch of \<^verbatim>\<open>webrtc-resources-12.tgz\<close>, the directory holds what the
  archive holds, and the marker holds \<^verbatim>\<open>12\<close>.
\<close>

lemma example_sync:
  "main (example_env 12 (Answer \<lparr>content_length = Some ''3'', body = ''tgz'', broken = False\<rparr>))
     plain_options no_resources =
   (Inr (),
    \<lparr>resources = Directory [(''audio.pcm'', ''A''), (''webrtc-resources-version'', ''12'')],
     temp_dirs = [],
     stdout = ''Version in DEPS file: 12'' @ [CHR 0x0A]
        @ ''Downloading: http://commondatastorage.googleapis.com/webrtc-resources/webrtc-resources-12.tgz'' @ [CHR 0x0A]
        @ ''Downloaded 0 of 0 kB (100.00%)'' @ [CHR 0x0D, CHR 0x0A]
        @ ''Removing old resources in /src/resources'' @ [CHR 0x0A]
        @ ''Extracted resource files into /src/resources'' @ [CHR 0x0A],
     calls = [Mkdir, Mkdtemp 1,
        Urlopen ''http://commondatastorage.googleapis.com/webrtc-resources/webrtc-resources-12.tgz'',
        Rmtree, Mkdir, Extract, WriteVersion 12, RmtreeTemp 1]\<rparr>)"
  by (simp add: step_defs url_12 int_defs example_env_def plain_options_def no_resources_def Let_def)

subsection \<open>The decision of \<^verbatim>\<open>main\<close>\<close>

lemma get_current_version_frame:
  "get_current_version w = (r, w') \<Longrightarrow>
   calls w' = calls w \<and> resources w' = resources w \<and> temp_dirs w' = temp_dirs w"
  by (auto simp: get_current_version_def split: fsnode.splits option.splits sum.splits)

lemma get_desired_version_frame:
  "get_desired_version e w = (r, w') \<Longrightarrow>
   calls w' = calls w \<and> resources w' = resources w \<and> temp_dirs w' = temp_dirs w"
  by (auto simp: get_desired_version_def split: option.splits sum.splits)

lemma ensure_downloads_dir_frame:
  "ensure_downloads_dir w = (Inr (), w') \<Longrightarrow>
   calls w' = calls w @ (if resources w = NoEntry then [Mkdir] else [])
   \<and> resources w' = (if resources w = NoEntry then Directory [] else resources w)
   \<and> temp_dirs w' = temp_dirs w \<and> stdout w' = stdout w"
  by (auto simp: ensure_downloads_dir_def mkdir_def record_call_def split: fsnode.splits)

lemma main_decision:
  assumes "skip_variable e = None \<or> skip_variable e = Some []"
      and "ensure_downloads_dir w = (Inr (), w0)"
      and "get_current_version w0 = (Inr c, w1)"
      and "get_desired_version e w1 = (Inr d, w2)"
  shows "main e opts w =
           (if d \<noteq> c \<or> opt_force opts then perform_download e (chosen_base_url opts) d w2
            else (Inr (), print (''Already have correct version: '' @ str_int c) w2))"
    and "calls w2 = calls w @ (if resources w = NoEntry then [Mkdir] else [])"
    and "resources w2 = (if resources w = NoEntry then Directory [] else resources w)"
    and "temp_dirs w2 = temp_dirs w"
proof -
  from assms show "main e opts w =
           (if d \<noteq> c \<or> opt_force opts then perform_download e (chosen_base_url opts) d w2
            else (Inr (), print (''Already have correct version: '' @ str_int c) w2))"
    by (auto simp: main_def bindE_def effect_def)
  note a = ensure_downloads_dir_frame [OF assms(2)] get_current_version_frame [OF assms(3)]
    get_desired_version_frame [OF assms(4)]
  from a show "calls w2 = calls w @ (if resources w = NoEntry then [Mkdir] else [])" by simp
  from a show "resources w2 = (if resources w = NoEntry then Directory [] else resources w)" by simp
  from a show "temp_dirs w2 = temp_dirs w" by simp
qed

lemma perform_download_starts:
  "\<exists>evs. calls (snd (perform_download e b d w)) =
     calls w @ Mkdtemp (fresh_temp (map fst (temp_dirs w))) # evs"
proof -
  obtain r w' where p: "perform_download e b d w = (r, w')" by (cases "perform_download e b d w")
  from perform_download_trace(2) [OF p] obtain k url where
    k: "1 \<le> k" and c: "calls w' = calls w @ take k [Mkdtemp (fresh_temp (map fst (temp_dirs w))),
        Urlopen url, Rmtree, Mkdir, Extract, WriteVersion d] @ [RmtreeTemp (fresh_temp (map fst (temp_dirs w)))]"
    by blast
  from k obtain j where "k = Suc j" by (cases k) auto
  with c p show ?thesis by simp
qed

text \<open>
  C1.  In a run of \<^verbatim>\<open>main\<close> that gets to the comparison (the environment variable does
  not skip it, and the recorded and the desired version are both read), the download
  is made if and only if it is forced or the two versions differ: then \<^verbatim>\<open>main\<close> is the
  download from the world the reads left, and otherwise all it does after the reads is
  to print the message with the current version.
\<close>

theorem main_downloads_iff_forced_or_different:
  assumes "skip_variable e = None \<or> skip_variable e = Some []"
      and "ensure_downloads_dir w = (Inr (), w0)"
      and "get_current_version w0 = (Inr current_version, w1)"
      and "get_desired_version e w1 = (Inr desired_version, w2)"
  shows "(list_ex is_mkdtemp (new_calls w (snd (main e opts w)))
            \<longleftrightarrow> opt_force opts \<or> desired_version \<noteq> current_version)
       \<and> main e opts w =
           (if opt_force opts \<or> desired_version \<noteq> current_version
            then perform_download e (chosen_base_url opts) desired_version w2
            else (Inr (), print (''Already have correct version: '' @ str_int current_version) w2))"
proof (cases "opt_force opts \<or> desired_version \<noteq> current_version")
  case True
  with main_decision(1) [OF assms, of opts]
  have m: "main e opts w = perform_download e (chosen_base_url opts) desired_version w2" by auto
  from perform_download_starts [of e "chosen_base_url opts" desired_version w2]
  obtain evs where "calls (snd (main e opts w)) =
      calls w2 @ Mkdtemp (fresh_temp (map fst (temp_dirs w2))) # evs"
    by (auto simp: m)
  with main_decision(2) [OF assms]
  have "list_ex is_mkdtemp (new_calls w (snd (main e opts w)))"
    by (simp add: new_calls_def)
  with True m show ?thesis by simp
next
  case False
  with main_decision(1) [OF assms, of opts]
  have m: "main e opts w =
      (Inr (), print (''Already have correct version: '' @ str_int current_version) w2)" by auto
  have "\<not> list_ex is_mkdtemp (new_calls w (snd (main e opts w)))"
    using main_decision(2) [OF assms] by (simp add: m new_calls_def)
  with False m show ?thesis by simp
qed

theorem main_downloads_iff_forced_or_different_witness:
  "list_ex is_mkdtemp (new_calls no_resources (snd (main
      (example_env 12 (Answer \<lparr>content_length = Some ''3'', body = ''tgz'', broken = False\<rparr>))
      plain_options no_resources)))
   \<and> \<not> list_ex is_mkdtemp (new_calls no_resources (snd (main
      (example_env 0 (Raises URLError)) plain_options no_resources)))
   \<and> \<not> opt_force plain_options"
proof -
  let ?e = "example_env 12 (Answer \<lparr>content_length = Some ''3'', body = ''tgz'', broken = False\<rparr>)"
  let ?w0 = "no_resources\<lparr>resources := Directory [], calls := [Mkdir]\<rparr>"
  have e: "skip_variable ?e = None \<or> skip_variable ?e = Some []"
    by (simp add: example_env_def)
  have a: "ensure_downloads_dir no_resources = (Inr (), ?w0)"
    by (simp add: no_resources_def ensure_downloads_dir_def mkdir_def record_call_def)
  have b: "get_current_version ?w0 = (Inr 0, ?w0)"
    by (simp add: get_current_version_def)
  have c: "get_desired_version ?e ?w0 = (Inr 12, print ''Version in DEPS file: 12'' ?w0)"
    by (simp add: get_desired_version_def example_env_def DEPS_KEY_def int_of_pyval_def int_defs)
  have f: "\<not> opt_force plain_options" by (simp add: plain_options_def)
  from conjunct1 [OF main_downloads_iff_forced_or_different [OF e a b c, of plain_options]] f
  have 1: "list_ex is_mkdtemp (new_calls no_resources (snd (main ?e plain_options no_resources)))"
    by simp
  let ?e' = "example_env 0 (Raises URLError)"
  have e': "skip_variable ?e' = None \<or> skip_variable ?e' = Some []"
    by (simp add: example_env_def)
  have c': "get_desired_version ?e' ?w0 = (Inr 0, print ''Version in DEPS file: 0'' ?w0)"
    by (simp add: get_desired_version_def example_env_def DEPS_KEY_def int_of_pyval_def int_defs)
  from conjunct1 [OF main_downloads_iff_forced_or_different [OF e' a b c', of plain_options]] f
  have 2: "\<not> list_ex is_mkdtemp (new_calls no_resources (snd (main ?e' plain_options no_resources)))"
    by simp
  from 1 2 f show ?thesis by simp
qed

text \<open>
  C7, as the specification has it: a run in which the desired version is the current one
  and the download is not forced changes nothing in the file system.  It fails where the
  resources directory does not exist: \<^verbatim>\<open>main\<close> creates it before it reads the versions.
  Here no marker and a DEPS file asking for version 0 make the two versions equal.
\<close>

theorem up_to_date_run_creates_directory:
  "fst (get_current_version no_resources) = Inr 0
   \<and> fst (get_desired_version (example_env 0 (Raises URLError)) no_resources) = Inr 0
   \<and> \<not> opt_force plain_options
   \<and> fst (main (example_env 0 (Raises URLError)) plain_options no_resources) = Inr ()
   \<and> resources no_resources = NoEntry
   \<and> resources (snd (main (example_env 0 (Raises URLError)) plain_options no_resources)) = Directory []
   \<and> resources (snd (main (example_env 0 (Raises URLError)) plain_options no_resources))
       \<noteq> resources no_resources"
  by (simp add: step_defs int_defs example_env_def plain_options_def no_resources_def)

text \<open>
  C7, amended.  In a run that gets to the comparison with the desired version equal to
  the current one and the download not forced, \<^verbatim>\<open>main\<close> ends well and the only change
  to the file system is that the resources directory is created, empty, when it did
  not exist: the files of the directory and the marker are as before, no temporary
  directory is left or made, and the only call that reaches outside the process is
  that \<^verbatim>\<open>mkdir\<close> (so there is no network request).
\<close>

theorem up_to_date_run_only_ensures_directory:
  assumes "skip_variable e = None \<or> skip_variable e = Some []"
      and "ensure_downloads_dir w = (Inr (), w0)"
      and "get_current_version w0 = (Inr v, w1)"
      and "get_desired_version e w1 = (Inr v, w2)"
      and "\<not> opt_force opts"
  shows "fst (main e opts w) = Inr ()
       \<and> resources (snd (main e opts w)) = (if resources w = NoEntry then Directory [] else resources w)
       \<and> dir_files (resources (snd (main e opts w))) = dir_files (resources w)
       \<and> marker (snd (main e opts w)) = marker w
       \<and> temp_dirs (snd (main e opts w)) = temp_dirs w
       \<and> new_calls w (snd (main e opts w)) = (if resources w = NoEntry then [Mkdir] else [])"
proof -
  from main_decision(1) [OF assms(1-4), of opts] assms(5)
  have m: "main e opts w = (Inr (), print (''Already have correct version: '' @ str_int v) w2)"
    by simp
  note f = main_decision(2-4) [OF assms(1-4)]
  from f show ?thesis
    by (simp add: m dir_files_def marker_def)
qed

theorem up_to_date_run_only_ensures_directory_witness:
  "fst (main (example_env 0 (Raises URLError)) plain_options no_resources) = Inr ()
   \<and> resources (snd (main (example_env 0 (Raises URLError)) plain_options no_resources)) = Directory []
   \<and> temp_dirs (snd (main (example_env 0 (Raises URLError)) plain_options no_resources)) = []
   \<and> new_calls no_resources (snd (main (example_env 0 (Raises URLError)) plain_options no_resources)) = [Mkdir]"
proof -
  let ?e = "example_env 0 (Raises URLError)"
  let ?w0 = "no_resources\<lparr>resources := Directory [], calls := [Mkdir]\<rparr>"
  have e: "skip_variable ?e = None \<or> skip_variable ?e = Some []"
    by (simp add: example_env_def)
  have a: "ensure_downloads_dir no_resources = (Inr (), ?w0)"
    by (simp add: no_resources_def ensure_downloads_dir_def mkdir_def record_call_def)
  have b: "get_current_version ?w0 = (Inr 0, ?w0)"
    by (simp add: get_current_version_def)
  have c: "get_desired_version ?e ?w0 = (Inr 0, print ''Version in DEPS file: 0'' ?w0)"
    by (simp add: get_desired_version_def example_env_def DEPS_KEY_def int_of_pyval_def int_defs)
  have f: "\<not> opt_force plain_options" by (simp add: plain_options_def)
  have n: "resources no_resources = NoEntry" "temp_dirs no_resources = []"
    by (simp_all add: no_resources_def)
  from up_to_date_run_only_ensures_directory [OF e a b c f] n show ?thesis
    by simp
qed

subsection \<open>Two downloads, run\<close>

lemma example_download_ok:
  "perform_download
     (example_env 12 (Answer \<lparr>content_length = Some ''3'', body = ''tgz'', broken = False\<rparr>))
     REMOTE_URL_BASE 12 old_resources =
   (Inr (),
    \<lparr>resources = Directory [(''audio.pcm'', ''A''), (''webrtc-resources-version'', ''12'')],
     temp_dirs = [],
     stdout = ''Downloading: http://commondatastorage.googleapis.com/webrtc-resources/webrtc-resources-12.tgz'' @ [CHR 0x0A]
        @ ''Downloaded 0 of 0 kB (100.00%)'' @ [CHR 0x0D, CHR 0x0A]
        @ ''Removing old resources in /src/resources'' @ [CHR 0x0A]
        @ ''Extracted resource files into /src/resources'' @ [CHR 0x0A],
     calls = [Mkdtemp 1,
        Urlopen ''http://commondatastorage.googleapis.com/webrtc-resources/webrtc-resources-12.tgz'',
        Rmtree, Mkdir, Extract, WriteVersion 12, RmtreeTemp 1]\<rparr>)"
  by (simp add: step_defs url_12 int_defs example_env_def old_resources_def Let_def)

lemma example_download_refused:
  "perform_download (example_env 12 (Raises (HTTPError 404))) REMOTE_URL_BASE 12 old_resources =
   (Inl (HTTPError 404),
    \<lparr>resources = Directory [(''old.wav'', ''O''), (''webrtc-resources-version'', ''11'')],
     temp_dirs = [],
     stdout = ''Downloading: http://commondatastorage.googleapis.com/webrtc-resources/webrtc-resources-12.tgz'' @ [CHR 0x0A],
     calls = [Mkdtemp 1,
        Urlopen ''http://commondatastorage.googleapis.com/webrtc-resources/webrtc-resources-12.tgz'',
        RmtreeTemp 1]\<rparr>)"
  by (simp add: step_defs url_12 int_defs example_env_def old_resources_def Let_def)

lemma fresh_temp_Nil: "fresh_temp [] = 1"
  by (simp add: fresh_temp_def)

subsection \<open>The order of the steps\<close>

lemma take_le_5_no_write:
  assumes "k \<le> 5"
  shows "WriteVersion d \<notin> set (take k [Mkdtemp t, Urlopen url, Rmtree, Mkdir, Extract, WriteVersion d])"
proof -
  have "set (take k [Mkdtemp t, Urlopen url, Rmtree, Mkdir, Extract, WriteVersion d])
      \<subseteq> set (take 5 [Mkdtemp t, Urlopen url, Rmtree, Mkdir, Extract, WriteVersion d])"
    using assms by (rule set_take_subset_set_take)
  then show ?thesis by (auto simp: eval_nat_numeral)
qed

lemma take_le_2_no_rmtree:
  assumes "k \<le> 2"
  shows "Rmtree \<notin> set (take k [Mkdtemp t, Urlopen url, Rmtree, Mkdir, Extract, WriteVersion d])"
proof -
  have "set (take k [Mkdtemp t, Urlopen url, Rmtree, Mkdir, Extract, WriteVersion d])
      \<subseteq> set (take 2 [Mkdtemp t, Urlopen url, Rmtree, Mkdir, Extract, WriteVersion d])"
    using assms by (rule set_take_subset_set_take)
  then show ?thesis by (auto simp: eval_nat_numeral)
qed

text \<open>
  C2.  Whatever a download does, the calls it makes are a beginning of the list
  \<^verbatim>\<open>mkdtemp\<close>, \<^verbatim>\<open>urlopen\<close> (the fetch), \<^verbatim>\<open>rmtree\<close>, \<^verbatim>\<open>mkdir\<close>, \<^verbatim>\<open>extractall\<close> (the installation),
  the write of the version, followed by the removal of the temporary directory; the
  download ends well exactly when the list is complete, so that then there are one
  fetch, one installation and one write of the version, in this order.  When the fetch
  or the installation raises, the download ends with that exception and the version is
  not written.
\<close>

theorem download_steps_in_order:
  assumes "perform_download e base_url desired_version w = (r, w')"
  defines "t \<equiv> fresh_temp (map fst (temp_dirs w))"
  shows "(\<exists>k url. 1 \<le> k \<and> k \<le> 6
            \<and> new_calls w w' =
                take k [Mkdtemp t, Urlopen url, Rmtree, Mkdir, Extract, WriteVersion desired_version]
                  @ [RmtreeTemp t]
            \<and> (r = Inr () \<longleftrightarrow> k = 6))
       \<and> (\<forall>err. fst (fetch e base_url desired_version t (snd (mkdtemp w))) = Inl err \<longrightarrow>
             r = Inl err \<and> WriteVersion desired_version \<notin> set (new_calls w w'))
       \<and> (\<forall>f w1 err. fetch e base_url desired_version t (snd (mkdtemp w)) = (Inr f, w1)
               \<and> fst (install e f w1) = Inl err \<longrightarrow>
             r = Inl err \<and> WriteVersion desired_version \<notin> set (new_calls w w'))"
proof -
  from perform_download_trace(2) [OF assms(1)] obtain k url where
    k: "1 \<le> k" "k \<le> 6" "r = Inr () \<longleftrightarrow> k = 6"
    and c: "calls w' = calls w @ take k [Mkdtemp t, Urlopen url, Rmtree, Mkdir, Extract,
        WriteVersion desired_version] @ [RmtreeTemp t]"
    unfolding t_def by blast
  from c have n: "new_calls w w' = take k [Mkdtemp t, Urlopen url, Rmtree, Mkdir, Extract,
        WriteVersion desired_version] @ [RmtreeTemp t]"
    by simp
  have failed: "WriteVersion desired_version \<notin> set (new_calls w w')" if "r = Inl err" for err
  proof -
    from that k have "k \<le> 5" by auto
    then show ?thesis by (simp add: n take_le_5_no_write)
  qed
  have 1: "\<exists>k url. 1 \<le> k \<and> k \<le> 6
            \<and> new_calls w w' =
                take k [Mkdtemp t, Urlopen url, Rmtree, Mkdir, Extract, WriteVersion desired_version]
                  @ [RmtreeTemp t]
            \<and> (r = Inr () \<longleftrightarrow> k = 6)"
    using k n by blast
  have 2: "r = Inl err \<and> WriteVersion desired_version \<notin> set (new_calls w w')"
    if "fst (fetch e base_url desired_version t (snd (mkdtemp w))) = Inl err" for err
    using perform_download_trace(4) [OF assms(1)] that failed unfolding t_def by blast
  have 3: "r = Inl err \<and> WriteVersion desired_version \<notin> set (new_calls w w')"
    if "fetch e base_url desired_version t (snd (mkdtemp w)) = (Inr f, w1)"
      "fst (install e f w1) = Inl err" for f w1 err
    using perform_download_trace(5) [OF assms(1)] that failed unfolding t_def by blast
  from 1 2 3 show ?thesis by blast
qed

theorem download_steps_in_order_witness:
  "(\<exists>url. new_calls old_resources
      (snd (perform_download
        (example_env 12 (Answer \<lparr>content_length = Some ''3'', body = ''tgz'', broken = False\<rparr>))
        REMOTE_URL_BASE 12 old_resources)) =
      [Mkdtemp 1, Urlopen url, Rmtree, Mkdir, Extract, WriteVersion 12, RmtreeTemp 1])
   \<and> fst (perform_download
        (example_env 12 (Answer \<lparr>content_length = Some ''3'', body = ''tgz'', broken = False\<rparr>))
        REMOTE_URL_BASE 12 old_resources) = Inr ()"
proof -
  from download_steps_in_order [OF example_download_ok] obtain k url where
    "new_calls old_resources (snd (perform_download
        (example_env 12 (Answer \<lparr>content_length = Some ''3'', body = ''tgz'', broken = False\<rparr>))
        REMOTE_URL_BASE 12 old_resources)) =
      take k [Mkdtemp (fresh_temp (map fst (temp_dirs old_resources))), Urlopen url, Rmtree, Mkdir,
        Extract, WriteVersion 12] @ [RmtreeTemp (fresh_temp (map fst (temp_dirs old_resources)))]"
    and "k = 6"
    by (auto simp: example_download_ok)
  moreover have "temp_dirs old_resources = []"
    by (simp add: old_resources_def)
  moreover have "fst (perform_download
        (example_env 12 (Answer \<lparr>content_length = Some ''3'', body = ''tgz'', broken = False\<rparr>))
        REMOTE_URL_BASE 12 old_resources) = Inr ()"
    by (simp add: example_download_ok)
  ultimately show ?thesis
    by (auto simp: fresh_temp_Nil)
qed

subsection \<open>A fetch that fails\<close>

lemma fetch_error_fails:
  assumes "remote_archive_url b d = Inr url" and "fetch_error (remote e url) = Some err"
  shows "fst (fetch e b d t w) = Inl err"
proof (cases "remote e url")
  case (Raises x)
  with assms show ?thesis
    by (simp add: fetch_def bindE_def effect_def urlopen_def fetch_error_def)
next
  case (Answer rsp)
  with assms show ?thesis
    by (auto simp: fetch_def bindE_def effect_def urlopen_def open_temp_file_def read_chunks_def
        fetch_error_def split: option.splits sum.splits)
qed

lemma failed_fetch_frame:
  assumes "perform_download e b d w = (r, w')"
      and "fst (fetch e b d (fresh_temp (map fst (temp_dirs w))) (snd (mkdtemp w))) = Inl err"
  shows "r = Inl err \<and> resources w' = resources w \<and> temp_dirs w' = temp_dirs w
         \<and> Rmtree \<notin> set (new_calls w w')"
proof -
  from perform_download_trace(2) [OF assms(1)] assms(2) obtain k url where
    k: "k \<le> 2" "resources w' = resources w"
    and c: "calls w' = calls w @ take k [Mkdtemp (fresh_temp (map fst (temp_dirs w))), Urlopen url,
        Rmtree, Mkdir, Extract, WriteVersion d] @ [RmtreeTemp (fresh_temp (map fst (temp_dirs w)))]"
    by blast
  from c have "new_calls w w' = take k [Mkdtemp (fresh_temp (map fst (temp_dirs w))), Urlopen url,
        Rmtree, Mkdir, Extract, WriteVersion d] @ [RmtreeTemp (fresh_temp (map fst (temp_dirs w)))]"
    by simp
  with k have "Rmtree \<notin> set (new_calls w w')"
    by (simp add: take_le_2_no_rmtree)
  with k perform_download_trace(1,4) [OF assms(1)] assms(2) show ?thesis by simp
qed

lemma rmtree_after_fetch:
  assumes "perform_download e b d w = (r, w')" and "Rmtree \<in> set (new_calls w w')"
  shows "\<exists>f w1. fetch e b d (fresh_temp (map fst (temp_dirs w))) (snd (mkdtemp w)) = (Inr f, w1)"
proof (cases "fetch e b d (fresh_temp (map fst (temp_dirs w))) (snd (mkdtemp w))")
  case (Pair rf w1)
  show ?thesis
  proof (cases rf)
    case (Inl err)
    with Pair failed_fetch_frame [OF assms(1), of err] assms(2) show ?thesis by simp
  next
    case (Inr f)
    with Pair show ?thesis by simp
  qed
qed

lemma example_sync_refused:
  "main (example_env 12 (Raises (HTTPError 404))) plain_options old_resources =
   (Inl (HTTPError 404),
    \<lparr>resources = Directory [(''old.wav'', ''O''), (''webrtc-resources-version'', ''11'')],
     temp_dirs = [],
     stdout = ''Found downloaded resources: version: 11'' @ [CHR 0x0A]
        @ ''Version in DEPS file: 12'' @ [CHR 0x0A]
        @ ''Downloading: http://commondatastorage.googleapis.com/webrtc-resources/webrtc-resources-12.tgz'' @ [CHR 0x0A],
     calls = [Mkdtemp 1,
        Urlopen ''http://commondatastorage.googleapis.com/webrtc-resources/webrtc-resources-12.tgz'',
        RmtreeTemp 1]\<rparr>)"
  by (simp add: step_defs url_12 int_defs example_env_def plain_options_def old_resources_def Let_def)

text \<open>
  C3.  Take a run of \<^verbatim>\<open>main\<close> that gets to the comparison and starts the download, from
  the URL \<open>url\<close>.  When \<^verbatim>\<open>urlopen\<close> raises (the host cannot be reached, or answers with a
  status that is not a success), when the answer has no \<^verbatim>\<open>Content-Length\<close> header, or when
  the header is not an integer, the run ends with that exception, and the files of the
  resources directory, the version marker and the temporary directories are what they
  were before the run; the resources directory itself is as before when it existed.
  The same holds for every way the fetch can fail.  The recursive delete of the
  resources directory is called only in a run whose fetch ended well.
\<close>

theorem fetch_failure_leaves_resources:
  assumes "skip_variable e = None \<or> skip_variable e = Some []"
      and "ensure_downloads_dir w = (Inr (), w0)"
      and "get_current_version w0 = (Inr current_version, w1)"
      and "get_desired_version e w1 = (Inr desired_version, w2)"
      and "opt_force opts \<or> desired_version \<noteq> current_version"
      and "main e opts w = (r, w')"
      and "remote_archive_url (chosen_base_url opts) desired_version = Inr url"
  defines "t \<equiv> fresh_temp (map fst (temp_dirs w2))"
  shows "(\<forall>err. fetch_error (remote e url) = Some err
              \<or> fst (fetch e (chosen_base_url opts) desired_version t (snd (mkdtemp w2))) = Inl err \<longrightarrow>
            r = Inl err
            \<and> dir_files (resources w') = dir_files (resources w)
            \<and> marker w' = marker w
            \<and> temp_dirs w' = temp_dirs w
            \<and> (resources w \<noteq> NoEntry \<longrightarrow> resources w' = resources w))
       \<and> (Rmtree \<in> set (new_calls w w') \<longrightarrow>
            (\<exists>f w3. fetch e (chosen_base_url opts) desired_version t (snd (mkdtemp w2)) = (Inr f, w3)))"
proof -
  from main_decision(1) [OF assms(1-4), of opts] assms(5)
  have "main e opts w = perform_download e (chosen_base_url opts) desired_version w2" by auto
  with assms(6)
  have p: "perform_download e (chosen_base_url opts) desired_version w2 = (r, w')" by simp
  note w2 = main_decision(2-4) [OF assms(1-4)]
  have a: "r = Inl err \<and> dir_files (resources w') = dir_files (resources w)
      \<and> marker w' = marker w \<and> temp_dirs w' = temp_dirs w
      \<and> (resources w \<noteq> NoEntry \<longrightarrow> resources w' = resources w)"
    if "fetch_error (remote e url) = Some err
        \<or> fst (fetch e (chosen_base_url opts) desired_version t (snd (mkdtemp w2))) = Inl err" for err
  proof -
    from that fetch_error_fails [OF assms(7)]
    have "fst (fetch e (chosen_base_url opts) desired_version t (snd (mkdtemp w2))) = Inl err"
      by blast
    from failed_fetch_frame [OF p this [unfolded t_def]] w2 show ?thesis
      by (simp add: dir_files_def marker_def)
  qed
  have b: "\<exists>f w3. fetch e (chosen_base_url opts) desired_version t (snd (mkdtemp w2)) = (Inr f, w3)"
    if "Rmtree \<in> set (new_calls w w')"
  proof -
    have "calls w2 = calls w @ (if resources w = NoEntry then [Mkdir] else [])" by (rule w2(1))
    moreover from perform_download_starts [of e "chosen_base_url opts" desired_version w2] p
    obtain evs where "calls w' = calls w2 @ evs" by auto
    ultimately have "new_calls w w' = (if resources w = NoEntry then [Mkdir] else []) @ new_calls w2 w'"
      by (simp add: new_calls_def)
    with that have "Rmtree \<in> set (new_calls w2 w')" by (auto split: if_splits)
    from rmtree_after_fetch [OF p this] show ?thesis by (simp add: t_def)
  qed
  from a b show ?thesis by blast
qed

theorem fetch_failure_leaves_resources_witness:
  "fetch_error (remote (example_env 12 (Raises (HTTPError 404)))
      ''http://commondatastorage.googleapis.com/webrtc-resources/webrtc-resources-12.tgz'')
     = Some (HTTPError 404)
   \<and> fst (main (example_env 12 (Raises (HTTPError 404))) plain_options old_resources)
       = Inl (HTTPError 404)
   \<and> resources (snd (main (example_env 12 (Raises (HTTPError 404))) plain_options old_resources))
       = resources old_resources
   \<and> marker (snd (main (example_env 12 (Raises (HTTPError 404))) plain_options old_resources))
       = Some ''11''"
proof -
  let ?e = "example_env 12 (Raises (HTTPError 404))"
  let ?w1 = "print ''Found downloaded resources: version: 11'' old_resources"
  have e: "skip_variable ?e = None \<or> skip_variable ?e = Some []"
    by (simp add: example_env_def)
  have a: "ensure_downloads_dir old_resources = (Inr (), old_resources)"
    by (simp add: old_resources_def ensure_downloads_dir_def)
  have b: "get_current_version old_resources = (Inr 11, ?w1)"
    by (simp add: get_current_version_def old_resources_def VERSION_FILENAME_def int_defs)
  have c: "get_desired_version ?e ?w1 = (Inr 12, print ''Version in DEPS file: 12'' ?w1)"
    by (simp add: get_desired_version_def example_env_def DEPS_KEY_def int_of_pyval_def int_defs)
  have t: "opt_force plain_options \<or> (12::int) \<noteq> 11" by simp
  have u: "remote_archive_url (chosen_base_url plain_options) 12 =
      Inr ''http://commondatastorage.googleapis.com/webrtc-resources/webrtc-resources-12.tgz''"
    by (simp add: chosen_base_url_def plain_options_def url_12)
  have f: "fetch_error (remote ?e
      ''http://commondatastorage.googleapis.com/webrtc-resources/webrtc-resources-12.tgz'')
     = Some (HTTPError 404)"
    by (simp add: fetch_error_def example_env_def)
  have m: "marker old_resources = Some ''11''" "resources old_resources \<noteq> NoEntry"
    by (simp_all add: marker_def old_resources_def VERSION_FILENAME_def)
  let ?w' = "snd (main ?e plain_options old_resources)"
  note th = fetch_failure_leaves_resources [OF e a b c t example_sync_refused u]
  have s: "?w' = \<lparr>resources = Directory [(''old.wav'', ''O''), (''webrtc-resources-version'', ''11'')],
     temp_dirs = [],
     stdout = ''Found downloaded resources: version: 11'' @ [CHR 0x0A]
        @ ''Version in DEPS file: 12'' @ [CHR 0x0A]
        @ ''Downloading: http://commondatastorage.googleapis.com/webrtc-resources/webrtc-resources-12.tgz'' @ [CHR 0x0A],
     calls = [Mkdtemp 1,
        Urlopen ''http://commondatastorage.googleapis.com/webrtc-resources/webrtc-resources-12.tgz'',
        RmtreeTemp 1]\<rparr>"
    by (simp add: example_sync_refused)
  from th f m(2) have "resources ?w' = resources old_resources \<and> marker ?w' = marker old_resources"
    unfolding s by blast
  moreover have "fst (main ?e plain_options old_resources) = Inl (HTTPError 404)"
    by (simp add: example_sync_refused)
  ultimately show ?thesis
    using f m(1) by simp
qed

subsection \<open>The temporary directory\<close>

text \<open>
  C4.  A download starts by making a temporary directory that did not exist, and
  the last thing it does is to remove it: however the download ends (\<open>r\<close> is its
  outcome, an exception of the fetch or of the installation as well as success), the
  directory does not exist afterwards, and the temporary directories are those there
  were before.
\<close>

theorem temp_dir_is_removed:
  assumes "perform_download e base_url desired_version w = (r, w')"
  defines "t \<equiv> fresh_temp (map fst (temp_dirs w))"
  shows "(\<exists>evs. new_calls w w' = Mkdtemp t # evs @ [RmtreeTemp t])
       \<and> map_of (temp_dirs w) t = None
       \<and> map_of (temp_dirs (snd (mkdtemp w))) t = Some []
       \<and> map_of (temp_dirs w') t = None
       \<and> temp_dirs w' = temp_dirs w"
proof -
  have fresh: "t \<notin> fst ` set (temp_dirs w)"
    using fresh_temp_new [of "map fst (temp_dirs w)"] by (simp add: t_def)
  then have none: "map_of (temp_dirs w) t = None"
    by (simp add: map_of_eq_None_iff)
  from perform_download_trace(2) [OF assms(1)] obtain k url where
    k: "1 \<le> k" and c: "calls w' = calls w @ take k [Mkdtemp t, Urlopen url, Rmtree, Mkdir, Extract,
        WriteVersion desired_version] @ [RmtreeTemp t]"
    unfolding t_def by blast
  from k obtain j where "k = Suc j" by (cases k) auto
  with c have "new_calls w w' = Mkdtemp t # take j [Urlopen url, Rmtree, Mkdir, Extract,
        WriteVersion desired_version] @ [RmtreeTemp t]"
    by simp
  then have "\<exists>evs. new_calls w w' = Mkdtemp t # evs @ [RmtreeTemp t]" by blast
  moreover have "map_of (temp_dirs (snd (mkdtemp w))) t = Some []"
    by (simp add: mkdtemp_cases t_def record_call_def)
  moreover note perform_download_trace(1) [OF assms(1)]
  ultimately show ?thesis using none by simp
qed

theorem temp_dir_is_removed_witness:
  "map_of (temp_dirs (snd (mkdtemp old_resources))) 1 = Some []
   \<and> temp_dirs (snd (perform_download
        (example_env 12 (Answer \<lparr>content_length = Some ''3'', body = ''tgz'', broken = False\<rparr>))
        REMOTE_URL_BASE 12 old_resources)) = []
   \<and> temp_dirs (snd (perform_download (example_env 12 (Raises (HTTPError 404)))
        REMOTE_URL_BASE 12 old_resources)) = []"
proof -
  have t: "temp_dirs old_resources = []" by (simp add: old_resources_def)
  from temp_dir_is_removed [OF example_download_ok] temp_dir_is_removed [OF example_download_refused]
  show ?thesis
    by (simp add: t fresh_temp_Nil example_download_ok example_download_refused)
qed

subsection \<open>The next run\<close>

lemma marker_Some_directory:
  "marker w = Some s \<Longrightarrow> ensure_downloads_dir w = (Inr (), w)"
  by (auto simp: marker_def ensure_downloads_dir_def split: fsnode.splits)

text \<open>
  C8.  After a download of version \<open>v\<close> that ended well, the marker holds the decimal
  text of \<open>v\<close>.  A following run of \<^verbatim>\<open>main\<close>, not skipped and not forced, with a DEPS file
  that asks for \<open>v\<close> again, reads \<open>v\<close> back as the current version, ends well having
  printed the two versions and that the version is the right one, and makes no call
  that reaches outside the process: no download.
\<close>

theorem sync_then_up_to_date:
  assumes "perform_download e base_url v w = (Inr (), w')"
      and "skip_variable e2 = None \<or> skip_variable e2 = Some []"
      and "fst (get_desired_version e2 w') = Inr v"
      and "\<not> opt_force opts2"
  shows "marker w' = Some (str_int v)
       \<and> get_current_version w' =
           (Inr v, print (''Found downloaded resources: version: '' @ str_int v) w')
       \<and> main e2 opts2 w' =
           (Inr (), print (''Already have correct version: '' @ str_int v)
                      (print (''Version in DEPS file: '' @ str_int v)
                         (print (''Found downloaded resources: version: '' @ str_int v) w')))
       \<and> new_calls w' (snd (main e2 opts2 w')) = []
       \<and> resources (snd (main e2 opts2 w')) = resources w'"
proof -
  let ?w1 = "print (''Found downloaded resources: version: '' @ str_int v) w'"
  let ?w2 = "print (''Version in DEPS file: '' @ str_int v) ?w1"
  from perform_download_trace(3) [OF assms(1)] have m: "marker w' = Some (str_int v)" by simp
  then have c: "get_current_version w' = (Inr v, ?w1)" by (rule get_current_version_marker)
  from m have a: "ensure_downloads_dir w' = (Inr (), w')" by (rule marker_Some_directory)
  from assms(3) have d: "get_desired_version e2 ?w1 = (Inr v, ?w2)"
    by (rule get_desired_version_any_world)
  from main_decision(1) [OF assms(2) a c d, of opts2] assms(4)
  have "main e2 opts2 w' = (Inr (), print (''Already have correct version: '' @ str_int v) ?w2)"
    by simp
  with m c show ?thesis by simp
qed

theorem sync_then_up_to_date_witness:
  "fst (perform_download
        (example_env 12 (Answer \<lparr>content_length = Some ''3'', body = ''tgz'', broken = False\<rparr>))
        REMOTE_URL_BASE 12 old_resources) = Inr ()
   \<and> fst (main (example_env 12 (Raises URLError)) plain_options
        (snd (perform_download
          (example_env 12 (Answer \<lparr>content_length = Some ''3'', body = ''tgz'', broken = False\<rparr>))
          REMOTE_URL_BASE 12 old_resources))) = Inr ()
   \<and> new_calls (snd (perform_download
          (example_env 12 (Answer \<lparr>content_length = Some ''3'', body = ''tgz'', broken = False\<rparr>))
          REMOTE_URL_BASE 12 old_resources))
        (snd (main (example_env 12 (Raises URLError)) plain_options
          (snd (perform_download
            (example_env 12 (Answer \<lparr>content_length = Some ''3'', body = ''tgz'', broken = False\<rparr>))
            REMOTE_URL_BASE 12 old_resources)))) = []"
proof -
  let ?e2 = "example_env 12 (Raises URLError)"
  let ?p = "perform_download
        (example_env 12 (Answer \<lparr>content_length = Some ''3'', body = ''tgz'', broken = False\<rparr>))
        REMOTE_URL_BASE 12 old_resources"
  have p: "?p = (Inr (), snd ?p)" by (simp add: example_download_ok)
  have e: "skip_variable ?e2 = None \<or> skip_variable ?e2 = Some []"
    by (simp add: example_env_def)
  have d: "fst (get_desired_version ?e2 (snd ?p)) = Inr 12"
    by (simp add: get_desired_version_def example_env_def DEPS_KEY_def int_of_pyval_def)
  have f: "\<not> opt_force plain_options" by (simp add: plain_options_def)
  have "fst ?p = Inr ()" by (simp add: example_download_ok)
  with sync_then_up_to_date [OF p e d f] show ?thesis
    by simp
qed

subsection \<open>The progress report\<close>

lemma print_progress_zero: "print_progress e b 0 w = (Inl ZeroDivisionError, w)"
  by (simp add: print_progress_def)

lemma print_progress_nonzero:
  "t \<noteq> 0 \<Longrightarrow> fst (print_progress e b t w) = Inr ()"
  by (simp add: print_progress_def Let_def)

lemma read_loop_empty:
  "read_loop e f brk cs t [] b w =
     (if brk then (Inl IOError, w) else (Inr b, file_write f [] w))"
  by (simp add: read_loop.simps [of e f brk cs t "[]" b w])

lemma read_loop_zero_total:
  assumes "rest \<noteq> []" and "0 < cs"
  shows "read_loop e f brk cs 0 rest b w = (Inl ZeroDivisionError, file_write f (take cs rest) w)"
proof -
  from assms have "take cs rest \<noteq> []" by (cases rest) auto
  then show ?thesis
    by (simp add: read_loop.simps [of e f brk cs 0 rest b w] print_progress_zero)
qed

text \<open>
  C10.  \<^verbatim>\<open>_print_progress\<close> divides by the total without a guard: it raises
  \<^verbatim>\<open>ZeroDivisionError\<close> exactly when the total is zero, and a positive total makes it
  succeed.  With a \<^verbatim>\<open>Content-Length\<close> of zero, \<^verbatim>\<open>_read_chunks\<close> raises that error exactly
  when the body is not empty; an empty body avoids the division, the loop ends at the
  first read, before any progress is printed, and the result is 0.
\<close>

theorem progress_divides_by_total:
  "(fst (print_progress e b t w) = Inl ZeroDivisionError \<longleftrightarrow> t = 0)
   \<and> (0 < t \<longrightarrow> fst (print_progress e b t w) = Inr ())
   \<and> (content_length rsp = Some header \<and> py_int (strip header) = Inr 0 \<and> 0 < chunk_size \<longrightarrow>
        (fst (read_chunks e f rsp chunk_size w) = Inl ZeroDivisionError \<longleftrightarrow> body rsp \<noteq> [])
        \<and> (body rsp = [] \<and> \<not> broken rsp \<longrightarrow>
             fst (read_chunks e f rsp chunk_size w) = Inr 0
             \<and> stdout (snd (read_chunks e f rsp chunk_size w)) = stdout w))"
proof (intro conjI impI)
  show "fst (print_progress e b t w) = Inl ZeroDivisionError \<longleftrightarrow> t = 0"
    by (cases "t = 0") (simp_all add: print_progress_zero print_progress_nonzero)
next
  assume "0 < t"
  then show "fst (print_progress e b t w) = Inr ()"
    by (simp add: print_progress_nonzero)
next
  assume h: "content_length rsp = Some header \<and> py_int (strip header) = Inr 0 \<and> 0 < chunk_size"
  then have r: "read_chunks e f rsp chunk_size w = read_loop e f (broken rsp) chunk_size 0 (body rsp) 0 w"
    by (simp add: read_chunks_def)
  show "fst (read_chunks e f rsp chunk_size w) = Inl ZeroDivisionError \<longleftrightarrow> body rsp \<noteq> []"
  proof (cases "body rsp = []")
    case True
    then show ?thesis by (simp add: r read_loop_empty)
  next
    case False
    with h show ?thesis by (simp add: r read_loop_zero_total)
  qed
  show "fst (read_chunks e f rsp chunk_size w) = Inr 0"
    if "body rsp = [] \<and> \<not> broken rsp"
    using that by (simp add: r read_loop_empty)
  show "stdout (snd (read_chunks e f rsp chunk_size w)) = stdout w"
    if "body rsp = [] \<and> \<not> broken rsp"
    using that by (simp add: r read_loop_empty)
qed

theorem progress_divides_by_total_witness:
  "fst (print_progress (example_env 12 (Raises URLError)) 5 0 old_resources) = Inl ZeroDivisionError
   \<and> fst (print_progress (example_env 12 (Raises URLError)) 5 10 old_resources) = Inr ()
   \<and> fst (read_chunks (example_env 12 (Raises URLError)) (1, ''a.tgz'')
        \<lparr>content_length = Some ''0'', body = ''x'', broken = False\<rparr> (10 * 1024) old_resources)
       = Inl ZeroDivisionError
   \<and> fst (read_chunks (example_env 12 (Raises URLError)) (1, ''a.tgz'')
        \<lparr>content_length = Some ''0'', body = [], broken = False\<rparr> (10 * 1024) old_resources)
       = Inr 0
   \<and> stdout (snd (read_chunks (example_env 12 (Raises URLError)) (1, ''a.tgz'')
        \<lparr>content_length = Some ''0'', body = [], broken = False\<rparr> (10 * 1024) old_resources))
       = stdout old_resources"
proof -
  have z: "py_int (strip ''0'') = Inr 0" by (simp add: int_defs)
  note a = progress_divides_by_total [of "example_env 12 (Raises URLError)" 5 0 old_resources
      "\<lparr>content_length = Some ''0'', body = ''x'', broken = False\<rparr>" "''0''" "10 * 1024" "(1, ''a.tgz'')"]
  note b = progress_divides_by_total [of "example_env 12 (Raises URLError)" 5 10 old_resources
      "\<lparr>content_length = Some ''0'', body = [], broken = False\<rparr>" "''0''" "10 * 1024" "(1, ''a.tgz'')"]
  from a b z show ?thesis by simp
qed

lemma chunks_Nil: "chunks n [] = []"
  by (simp add: chunks.simps [of n "[]"])

lemma chunks_step:
  "take n xs \<noteq> [] \<Longrightarrow> chunks n xs = take n xs # chunks n (drop n xs)"
  by (simp add: chunks.simps [of n xs])

lemma chunks_stop: "take n xs = [] \<Longrightarrow> chunks n xs = []"
  by (simp add: chunks.simps [of n xs])

lemma concat_chunks: "0 < n \<Longrightarrow> concat (chunks n xs) = xs"
proof (induction n xs rule: chunks.induct)
  case (1 n xs)
  show ?case
  proof (cases "take n xs = []")
    case True
    with \<open>0 < n\<close> have "xs = []" by (cases xs) auto
    then show ?thesis by (simp add: chunks_Nil)
  next
    case False
    with 1 show ?thesis by (simp add: chunks_step)
  qed
qed

lemma chunks_nonempty: "c \<in> set (chunks n xs) \<Longrightarrow> c \<noteq> []"
proof (induction n xs rule: chunks.induct)
  case (1 n xs)
  show ?case
  proof (cases "take n xs = []")
    case True
    with "1.prems" show ?thesis by (simp add: chunks_stop)
  next
    case False
    with 1 show ?thesis by (auto simp: chunks_step)
  qed
qed

lemma chunks_full: "c \<in> set (butlast (chunks n xs)) \<Longrightarrow> length c = n"
proof (induction n xs rule: chunks.induct)
  case (1 n xs)
  show ?case
  proof (cases "take n xs = []")
    case True
    with "1.prems" show ?thesis by (simp add: chunks_stop)
  next
    case False
    show ?thesis
    proof (cases "chunks n (drop n xs) = []")
      case True
      with False "1.prems" show ?thesis by (simp add: chunks_step)
    next
      case ne: False
      then have "take n (drop n xs) \<noteq> []" using chunks_stop [of n "drop n xs"] by blast
      then have "n < length xs" by (cases "n < length xs") auto
      then have "length (take n xs) = n" by simp
      with False ne 1 show ?thesis by (auto simp: chunks_step)
    qed
  qed
qed

lemma map_entry_cong_id: "(\<And>v. f v = v) \<Longrightarrow> AList.map_entry k f al = al"
  by (induction al) auto

lemma map_entry_comp: "AList.map_entry k f (AList.map_entry k g al) = AList.map_entry k (\<lambda>v. f (g v)) al"
  by (induction al) auto

lemma temp_dirs_file_write_Nil: "temp_dirs (file_write f [] w) = temp_dirs w"
  by (simp add: file_write_def map_entry_cong_id)

lemma temp_dirs_file_write_twice:
  "temp_dirs (file_write f b w2) = temp_dirs (file_write f (a @ b) w)"
  if "temp_dirs w2 = temp_dirs (file_write f a w)"
  using that by (simp add: file_write_def map_entry_comp)

lemma file_write_other [simp]:
  "temp_dirs (file_write f d (w\<lparr>stdout := s\<rparr>)) = temp_dirs (file_write f d w)"
  by (simp add: file_write_def)

lemma print_progress_ok:
  "t \<noteq> 0 \<Longrightarrow> print_progress e b t w =
     (Inr (), w\<lparr>stdout := stdout w @ progress_line e b t @ (if t \<le> b then [CHR 0x0A] else [])\<rparr>)"
  by (simp add: print_progress_def progress_line_def write_stdout_def Let_def)

lemma read_loop_stop:
  "take n rest = [] \<Longrightarrow>
   read_loop e f brk n t rest b w = (if brk then (Inl IOError, w) else (Inr b, file_write f [] w))"
  by (simp add: read_loop.simps [of e f brk n t rest b w])

lemma read_loop_step:
  "take n rest \<noteq> [] \<Longrightarrow>
   print_progress e (b + int (length (take n rest))) t (file_write f (take n rest) w) = (Inr (), w2) \<Longrightarrow>
   read_loop e f brk n t rest b w =
     read_loop e f brk n t (drop n rest) (b + int (length (take n rest))) w2"
  by (simp add: read_loop.simps [of e f brk n t rest b w])

lemma read_loop_output:
  assumes "t \<noteq> 0" and "\<not> brk"
  shows "fst (read_loop e f brk n t rest b w) = Inr (b + int (length (concat (chunks n rest))))
       \<and> stdout (snd (read_loop e f brk n t rest b w)) = stdout w @ progress_output e t b (chunks n rest)
       \<and> temp_dirs (snd (read_loop e f brk n t rest b w))
           = temp_dirs (file_write f (concat (chunks n rest)) w)"
  using assms
proof (induction e f brk n t rest b w rule: read_loop.induct)
  case (1 e f brk n t rest b w)
  show ?case
  proof (cases "take n rest = []")
    case True
    then have "read_loop e f brk n t rest b w = (Inr b, file_write f [] w)"
      using "1.prems" by (simp add: read_loop_stop)
    with True show ?thesis
      by (simp add: chunks_stop temp_dirs_file_write_Nil)
  next
    case False
    let ?c = "take n rest"
    let ?w1 = "file_write f ?c w"
    let ?w2 = "?w1\<lparr>stdout := stdout ?w1 @ progress_line e (b + int (length ?c)) t
        @ (if t \<le> b + int (length ?c) then [CHR 0x0A] else [])\<rparr>"
    have p: "print_progress e (b + int (length ?c)) t ?w1 = (Inr (), ?w2)"
      using "1.prems" by (simp add: print_progress_ok)
    have step: "read_loop e f brk n t rest b w =
        read_loop e f brk n t (drop n rest) (b + int (length ?c)) ?w2"
      using False p by (rule read_loop_step)
    note ih = "1.IH" [OF False p [symmetric] refl "1.prems"]
    have t2: "temp_dirs ?w2 = temp_dirs (file_write f ?c w)" by simp
    from ih have "temp_dirs (snd (read_loop e f brk n t (drop n rest) (b + int (length ?c)) ?w2))
        = temp_dirs (file_write f (concat (chunks n (drop n rest))) ?w2)" by simp
    also have "\<dots> = temp_dirs (file_write f (?c @ concat (chunks n (drop n rest))) w)"
      using t2 by (rule temp_dirs_file_write_twice)
    finally have td: "temp_dirs (snd (read_loop e f brk n t rest b w))
        = temp_dirs (file_write f (concat (chunks n rest)) w)"
      using False by (simp add: step chunks_step)
    from ih False td show ?thesis
      by (simp add: step chunks_step)
  qed
qed

lemma progress_output_short:
  "b + int (length (concat cs)) < t \<Longrightarrow> progress_output e t b cs = progress_lines e t b cs"
proof (induction cs arbitrary: b)
  case Nil
  then show ?case by simp
next
  case (Cons c cs)
  from Cons.prems have "b + int (length c) < t" "b + int (length c) + int (length (concat cs)) < t"
    by simp_all
  with Cons.IH [of "b + int (length c)"] show ?case by simp
qed

lemma progress_output_exact:
  assumes "cs \<noteq> []" and "\<And>c. c \<in> set cs \<Longrightarrow> c \<noteq> []" and "b + int (length (concat cs)) = t"
  shows "progress_output e t b cs = progress_lines e t b cs @ [CHR 0x0A]"
  using assms
proof (induction cs arbitrary: b)
  case Nil
  then show ?case by simp
next
  case (Cons c cs)
  show ?case
  proof (cases "cs = []")
    case True
    with Cons.prems show ?thesis by simp
  next
    case False
    then obtain c' cs' where cs: "cs = c' # cs'" by (cases cs) auto
    with Cons.prems(2) [of c'] have "c' \<noteq> []" by simp
    then have pos: "0 < length c'" by simp
    have "length (concat cs) = length c' + length (concat cs')" by (simp add: cs)
    with pos have pos': "0 < int (length (concat cs))" by linarith
    have "b + int (length c) + int (length (concat cs)) = t" using Cons.prems(3) by simp
    with pos' have lt: "b + int (length c) < t" by linarith
    have "progress_output e t (b + int (length c)) cs = progress_lines e t (b + int (length c)) cs @ [CHR 0x0A]"
      using False Cons.prems by (intro Cons.IH) auto
    with lt show ?thesis by simp
  qed
qed

lemma chunks_le: "c \<in> set (chunks n xs) \<Longrightarrow> length c \<le> n"
proof (induction n xs rule: chunks.induct)
  case (1 n xs)
  show ?case
  proof (cases "take n xs = []")
    case True
    with "1.prems" show ?thesis by (simp add: chunks_stop)
  next
    case False
    with 1 show ?thesis by (auto simp: chunks_step)
  qed
qed

text \<open>
  C9, as the specification has it: the newline that ends the progress report is written
  when the empty read tells that the download is complete.  It is not: nothing is
  written for the empty read.  Here the host announces ten bytes and delivers five; the
  download ends well with 5 bytes read, and all it printed is one progress line, with
  no newline.
\<close>

theorem short_body_gets_no_newline:
  "fst (read_chunks half_env (1, ''webrtc-resources-12.tgz'') short_answer (10 * 1024) old_resources)
     = Inr 5
   \<and> stdout (snd (read_chunks half_env (1, ''webrtc-resources-12.tgz'') short_answer (10 * 1024)
        old_resources)) = ''Downloaded 0 of 0 kB (50.00%)'' @ [CHR 0x0D]
   \<and> CHR 0x0A \<notin> set (stdout (snd (read_chunks half_env (1, ''webrtc-resources-12.tgz'')
        short_answer (10 * 1024) old_resources)))"
  by (simp add: read_chunks_def read_loop.simps print_progress_def file_write_def write_stdout_def
      int_defs half_env_def short_answer_def example_env_def old_resources_def Let_def)

text \<open>
  C9, amended.  For an answer with a \<^verbatim>\<open>Content-Length\<close> that is an integer other than
  zero, on a connection that does not fail, \<^verbatim>\<open>_read_chunks\<close> reads the body in chunks of
  10 KiB (every chunk but the last has exactly 10240 bytes, none is empty), writes
  them to the file and returns the length of the body.  After each chunk it writes
  a progress line that ends with a carriage return (bytes so far and total in whole kB,
  and the percentage), and right after that line a newline whenever the bytes read so
  far have reached the total; the empty read prints nothing.  So a non-empty body of
  exactly \<^verbatim>\<open>Content-Length\<close> bytes gets one newline, after its last progress line, and a
  body shorter than \<^verbatim>\<open>Content-Length\<close> gets none.
\<close>

theorem progress_of_a_download:
  assumes "content_length rsp = Some header"
      and "py_int (strip header) = Inr total_size"
      and "total_size \<noteq> 0"
      and "\<not> broken rsp"
  defines "cs \<equiv> chunks (10 * 1024) (body rsp)"
  shows "fst (read_chunks e f rsp (10 * 1024) w) = Inr (int (length (body rsp)))
       \<and> concat cs = body rsp
       \<and> (\<forall>c \<in> set (butlast cs). length c = 10 * 1024)
       \<and> (\<forall>c \<in> set cs. c \<noteq> [] \<and> length c \<le> 10 * 1024)
       \<and> temp_dirs (snd (read_chunks e f rsp (10 * 1024) w)) = temp_dirs (file_write f (body rsp) w)
       \<and> stdout (snd (read_chunks e f rsp (10 * 1024) w)) = stdout w @ progress_output e total_size 0 cs
       \<and> (body rsp \<noteq> [] \<and> int (length (body rsp)) = total_size \<longrightarrow>
            progress_output e total_size 0 cs = progress_lines e total_size 0 cs @ [CHR 0x0A])
       \<and> (int (length (body rsp)) < total_size \<longrightarrow>
            progress_output e total_size 0 cs = progress_lines e total_size 0 cs)"
proof -
  have r: "read_chunks e f rsp (10 * 1024) w =
      read_loop e f (broken rsp) (10 * 1024) total_size (body rsp) 0 w"
    using assms(1,2) by (simp add: read_chunks_def)
  have cc: "concat cs = body rsp" unfolding cs_def by (rule concat_chunks) simp
  note o = read_loop_output [OF assms(3,4), of e f "10 * 1024" "body rsp" 0 w, folded cs_def]
  have 1: "fst (read_chunks e f rsp (10 * 1024) w) = Inr (int (length (body rsp)))"
    unfolding r using o cc by simp
  have 2: "\<forall>c \<in> set (butlast cs). length c = 10 * 1024"
    unfolding cs_def using chunks_full by blast
  have 3: "\<forall>c \<in> set cs. c \<noteq> [] \<and> length c \<le> 10 * 1024"
    unfolding cs_def using chunks_nonempty chunks_le by blast
  have 4: "temp_dirs (snd (read_chunks e f rsp (10 * 1024) w)) = temp_dirs (file_write f (body rsp) w)"
    unfolding r using o cc by simp
  have 5: "stdout (snd (read_chunks e f rsp (10 * 1024) w)) = stdout w @ progress_output e total_size 0 cs"
    unfolding r using o by simp
  have 6: "progress_output e total_size 0 cs = progress_lines e total_size 0 cs @ [CHR 0x0A]"
    if "body rsp \<noteq> [] \<and> int (length (body rsp)) = total_size"
  proof (rule progress_output_exact)
    from that cc show "cs \<noteq> []" by auto
    show "c \<noteq> []" if "c \<in> set cs" for c using that 3 by blast
    from that cc show "0 + int (length (concat cs)) = total_size" by simp
  qed
  have 7: "progress_output e total_size 0 cs = progress_lines e total_size 0 cs"
    if "int (length (body rsp)) < total_size"
    using that cc by (intro progress_output_short) simp
  from 1 cc 2 3 4 5 6 7 show ?thesis by blast
qed

theorem progress_of_a_download_witness:
  "fst (read_chunks (example_env 12 (Raises URLError)) (1, ''webrtc-resources-12.tgz'')
      \<lparr>content_length = Some ''3'', body = ''tgz'', broken = False\<rparr> (10 * 1024) old_resources) = Inr 3
   \<and> chunks (10 * 1024) ''tgz'' = [''tgz'']
   \<and> stdout (snd (read_chunks (example_env 12 (Raises URLError)) (1, ''webrtc-resources-12.tgz'')
      \<lparr>content_length = Some ''3'', body = ''tgz'', broken = False\<rparr> (10 * 1024) old_resources))
     = ''Downloaded 0 of 0 kB (100.00%)'' @ [CHR 0x0D, CHR 0x0A]"
proof -
  have h: "py_int (strip ''3'') = Inr 3" by (simp add: int_defs)
  have c: "chunks (10 * 1024) ''tgz'' = [''tgz'']"
    by (simp add: chunks.simps)
  have l: "progress_lines (example_env 12 (Raises URLError)) 3 0 [''tgz'']
      = ''Downloaded 0 of 0 kB (100.00%)'' @ [CHR 0x0D]"
    by (simp add: progress_line_def example_env_def int_defs)
  have s: "stdout old_resources = []" by (simp add: old_resources_def)
  from progress_of_a_download [of "\<lparr>content_length = Some ''3'', body = ''tgz'', broken = False\<rparr>"
      "''3''" 3 "example_env 12 (Raises URLError)" "(1, ''webrtc-resources-12.tgz'')" old_resources]
    h c l s
  show ?thesis by simp
qed

subsection \<open>The URL of the archive\<close>

lemma split_on_nonempty: "split_on c s \<noteq> []"
  by (induction s) (auto split: list.splits)

lemma split_on_no_sep: "c \<notin> set s \<Longrightarrow> split_on c s = [s]"
  by (induction s) auto

lemma split_on_snoc_sep: "split_on c (s @ [c]) = split_on c s @ [[]]"
  by (induction s) (auto split: list.splits simp: split_on_nonempty)

lemma join_on_snoc: "xs \<noteq> [] \<Longrightarrow> join_on c (xs @ [n]) = join_on c xs @ c # n"
  by (induction c xs rule: join_on.induct) auto

lemma join_on_split_on: "join_on c (split_on c s) = s"
proof (induction s)
  case Nil
  then show ?case by simp
next
  case (Cons x s)
  show ?case
  proof (cases "x = c")
    case True
    with Cons show ?thesis
      by (cases "split_on c s") (auto simp: split_on_nonempty)
  next
    case False
    obtain a as where sp: "split_on c s = a # as"
      using split_on_nonempty [of c s] by (cases "split_on c s") auto
    with Cons have "join_on c (a # as) = s" by simp
    then have "join_on c ((x # a) # as) = x # s" by (cases as) auto
    with False sp show ?thesis by simp
  qed
qed

lemma del_dotdot_none: "''..'' \<notin> set segs \<Longrightarrow> del_dotdot segs = None"
  by (induction segs rule: del_dotdot.induct) auto

lemma resolve_dotdot_id: "''..'' \<notin> set segs \<Longrightarrow> resolve_dotdot segs = segs"
  by (simp add: resolve_dotdot.simps [of segs] del_dotdot_none)

lemma join_segments_plain:
  assumes "''.'' \<notin> set (split_on CHR ''/'' p)" and "''..'' \<notin> set (split_on CHR ''/'' p)"
      and "name \<noteq> ''.''" and "name \<noteq> ''..''" and "CHR ''/'' \<notin> set name"
  shows "join_segments (butlast (split_on CHR ''/'' (p @ ''/'')) @ split_on CHR ''/'' name)
           = p @ ''/'' @ name"
proof -
  define segs where "segs = split_on CHR ''/'' p @ [name]"
  have s: "butlast (split_on CHR ''/'' (p @ ''/'')) @ split_on CHR ''/'' name = segs"
    using assms(5) by (simp add: segs_def split_on_snoc_sep split_on_no_sep)
  have l: "last segs = name" by (simp add: segs_def)
  have f: "filter (\<lambda>s. s \<noteq> ''.'') segs = segs"
    using assms(1,3) by (auto simp: segs_def filter_id_conv)
  have r: "resolve_dotdot segs = segs"
    using assms(2,4) by (intro resolve_dotdot_id) (auto simp: segs_def)
  have n: "segs \<noteq> [[], ''..'']"
    using l assms(4) by auto
  have "join_segments segs = join_on CHR ''/'' segs"
    using assms(3,4) by (simp add: join_segments_def l f r n Let_def)
  also have "\<dots> = p @ ''/'' @ name"
    by (simp add: segs_def join_on_snoc split_on_nonempty join_on_split_on)
  finally show ?thesis by (simp add: s)
qed


lemma split_tail_netloc:
  assumes "take 2 u = ''//''" and "drop 2 u = host @ path"
      and "\<forall>c \<in> set host. c \<noteq> CHR ''/'' \<and> c \<noteq> CHR ''?'' \<and> c \<noteq> CHR ''#''"
      and "\<not> bad_brackets host"
      and "path \<noteq> []" and "hd path = CHR ''/''"
      and "\<forall>c \<in> set path. c \<noteq> CHR ''?'' \<and> c \<noteq> CHR ''#''"
  shows "split_tail scheme u =
     Inr \<lparr>sr_scheme = scheme, sr_netloc = host, sr_path = path, sr_params = [],
          sr_query = [], sr_fragment = []\<rparr>"
proof -
  let ?stop = "\<lambda>x. x \<notin> set ''/?#''"
  have h: "\<And>c. c \<in> set host \<Longrightarrow> ?stop c" using assms(3) by auto
  have p0: "takeWhile ?stop path = []" "dropWhile ?stop path = path"
    using assms(5,6) by (cases path; simp)+
  have "takeWhile ?stop (host @ path) = host @ takeWhile ?stop path"
    by (rule takeWhile_append2) (rule h)
  then have tw: "takeWhile ?stop (host @ path) = host" by (simp only: p0 append_Nil2)
  have "dropWhile ?stop (host @ path) = dropWhile ?stop path"
    by (rule dropWhile_append2) (rule h)
  then have dw: "dropWhile ?stop (host @ path) = path" by (simp only: p0)
  have sn: "splitnetloc u = (host, path)"
    unfolding splitnetloc_def Let_def assms(2) tw dw ..
  have q: "CHR ''#'' \<notin> set path" "CHR ''?'' \<notin> set path" using assms(7) by auto
  show ?thesis
    unfolding split_tail_def assms(1) sn using assms(4) q by simp
qed

lemma relative_scheme_chars:
  assumes "scheme \<in> set uses_relative"
  shows "CHR '':'' \<notin> set scheme" and "list_all (\<lambda>c. c \<in> set scheme_chars) scheme"
    and "map lower_char scheme = scheme"
  using assms by (auto simp: uses_relative_def scheme_chars_def lower_char_def)

lemma urlsplit_scheme:
  assumes "scheme \<in> set uses_relative" and "scheme \<noteq> []"
  shows "urlsplit (scheme @ '':'' @ ''//'' @ u) d = split_tail scheme (''//'' @ u)"
proof -
  define rest where "rest = ''//'' @ u"
  define url where "url = scheme @ CHR '':'' # rest"
  note sc = relative_scheme_chars [OF assms(1)]
  have all: "\<And>c. c \<in> set scheme \<Longrightarrow> c \<noteq> CHR '':''" using sc(1) by auto
  have "takeWhile (\<lambda>x. x \<noteq> CHR '':'') url = takeWhile (\<lambda>x. x \<noteq> CHR '':'') scheme"
    unfolding url_def by (rule takeWhile_tail) simp
  also have "\<dots> = scheme" using all by (simp add: takeWhile_eq_all_conv)
  finally have tw: "takeWhile (\<lambda>x. x \<noteq> CHR '':'') url = scheme" .
  have "dropWhile (\<lambda>x. x \<noteq> CHR '':'') url = dropWhile (\<lambda>x. x \<noteq> CHR '':'') (CHR '':'' # rest)"
    unfolding url_def by (rule dropWhile_append2) (rule all)
  then have dw: "tl (dropWhile (\<lambda>x. x \<noteq> CHR '':'') url) = rest" by simp
  have m: "CHR '':'' \<in> set url" by (simp add: url_def)
  have r: "rest \<noteq> []" "\<not> list_all is_digit rest" by (simp_all add: rest_def is_digit_def)
  have "urlsplit url d = split_tail scheme rest"
    using assms(2) sc(2,3) r by (simp add: urlsplit_def split_first_def m tw dw)
  then show ?thesis by (simp add: url_def rest_def)
qed

lemma urlparse_plain_base:
  assumes "scheme \<in> set uses_relative" and "scheme \<noteq> []"
      and "\<forall>c \<in> set host. c \<noteq> CHR ''/'' \<and> c \<noteq> CHR ''?'' \<and> c \<noteq> CHR ''#''"
      and "\<not> bad_brackets host"
      and "path \<noteq> []" and "hd path = CHR ''/''"
      and "\<forall>c \<in> set path. c \<noteq> CHR ''?'' \<and> c \<noteq> CHR ''#'' \<and> c \<noteq> CHR '';''"
  shows "urlparse (scheme @ '':'' @ ''//'' @ host @ path) [] =
     Inr \<lparr>sr_scheme = scheme, sr_netloc = host, sr_path = path, sr_params = [],
          sr_query = [], sr_fragment = []\<rparr>"
proof -
  have st: "split_tail scheme (''//'' @ host @ path) =
     Inr \<lparr>sr_scheme = scheme, sr_netloc = host, sr_path = path, sr_params = [],
          sr_query = [], sr_fragment = []\<rparr>"
    by (rule split_tail_netloc) (use assms in auto)
  have sc: "CHR '';'' \<notin> set path" using assms(7) by auto
  show ?thesis
    unfolding urlparse_def urlsplit_scheme [OF assms(1,2)] st using sc by simp
qed

lemma split_tail_name:
  assumes "name \<noteq> []"
      and "\<forall>c \<in> set name. c \<noteq> CHR ''/'' \<and> c \<noteq> CHR ''?'' \<and> c \<noteq> CHR ''#'' \<and> c \<noteq> CHR '';'' \<and> c \<noteq> CHR '':''"
  shows "split_tail scheme name =
     Inr \<lparr>sr_scheme = scheme, sr_netloc = [], sr_path = name, sr_params = [],
          sr_query = [], sr_fragment = []\<rparr>"
proof -
  from assms have t: "take 2 name \<noteq> ''//''" by (cases name) auto
  have q: "CHR ''#'' \<notin> set name" "CHR ''?'' \<notin> set name" using assms(2) by auto
  show ?thesis
    unfolding split_tail_def using t q by (simp add: bad_brackets_def)
qed

lemma urlparse_plain_name:
  assumes "name \<noteq> []"
      and "\<forall>c \<in> set name. c \<noteq> CHR ''/'' \<and> c \<noteq> CHR ''?'' \<and> c \<noteq> CHR ''#'' \<and> c \<noteq> CHR '';'' \<and> c \<noteq> CHR '':''"
  shows "urlparse name scheme =
     Inr \<lparr>sr_scheme = scheme, sr_netloc = [], sr_path = name, sr_params = [],
          sr_query = [], sr_fragment = []\<rparr>"
proof -
  have c: "CHR '':'' \<notin> set name" "CHR '';'' \<notin> set name" using assms(2) by auto
  have us: "urlsplit name scheme = split_tail scheme name"
    unfolding urlsplit_def using c by simp
  show ?thesis
    unfolding urlparse_def us split_tail_name [OF assms] using c by simp
qed

lemma urljoin_plain:
  assumes "scheme \<in> set uses_relative" and "scheme \<in> set uses_netloc" and "scheme \<noteq> []"
      and "host \<noteq> []"
      and "\<forall>c \<in> set host. c \<noteq> CHR ''/'' \<and> c \<noteq> CHR ''?'' \<and> c \<noteq> CHR ''#''"
      and "\<not> bad_brackets host"
      and "p = [] \<or> hd p = CHR ''/''"
      and "\<forall>c \<in> set p. c \<noteq> CHR ''?'' \<and> c \<noteq> CHR ''#'' \<and> c \<noteq> CHR '';''"
      and "''.'' \<notin> set (split_on CHR ''/'' p)" and "''..'' \<notin> set (split_on CHR ''/'' p)"
      and "name \<noteq> []" and "name \<noteq> ''.''" and "name \<noteq> ''..''"
      and "\<forall>c \<in> set name. c \<noteq> CHR ''/'' \<and> c \<noteq> CHR ''?'' \<and> c \<noteq> CHR ''#'' \<and> c \<noteq> CHR '';'' \<and> c \<noteq> CHR '':''"
  shows "urljoin (scheme @ '':'' @ ''//'' @ host @ p @ ''/'') name
           = Inr (scheme @ '':'' @ ''//'' @ host @ p @ ''/'' @ name)"
proof -
  have hp: "hd (p @ ''/'') = CHR ''/''" using assms(7) by (cases p) auto
  have b: "urlparse (scheme @ '':'' @ ''//'' @ host @ p @ ''/'') [] =
     Inr \<lparr>sr_scheme = scheme, sr_netloc = host, sr_path = p @ ''/'', sr_params = [],
          sr_query = [], sr_fragment = []\<rparr>"
    by (rule urlparse_plain_base) (use assms(1,3,5,6,8) hp in auto)
  note u = urlparse_plain_name [OF assms(11,14), of scheme]
  from assms(14) have ns: "CHR ''/'' \<notin> set name" by auto
  note j = join_segments_plain [OF assms(9,10,12,13) ns]
  from assms(11) ns have t1: "take (Suc 0) name \<noteq> ''/''" by (cases name) auto
  have up: "urlunparse \<lparr>sr_scheme = scheme, sr_netloc = host, sr_path = p @ ''/'' @ name,
      sr_params = [], sr_query = [], sr_fragment = []\<rparr> = scheme @ '':'' @ ''//'' @ host @ p @ ''/'' @ name"
    using assms(3,4) hp by (cases p) (auto simp: urlunparse_def Let_def)
  define base where "base = scheme @ '':'' @ ''//'' @ host @ p @ ''/''"
  have ne: "base \<noteq> []" by (simp add: base_def)
  note b' = b [folded base_def]
  have "urljoin base name = Inr (scheme @ '':'' @ ''//'' @ host @ p @ ''/'' @ name)"
    using assms(1,2,11) t1 ne j up
    by (simp add: urljoin_def b' u Let_def)
  then show ?thesis by (simp only: base_def)
qed

lemma str_int_chars: "c \<in> set (str_int i) \<Longrightarrow> c = CHR ''-'' \<or> is_digit c"
  using digits_all_digit [of "nat i"] digits_all_digit [of "nat (- i)"]
  by (auto simp: str_int_def list_all_iff split: if_splits)

lemma archive_name_chars:
  "c \<in> set (archive_name v) \<Longrightarrow>
   c \<noteq> CHR ''/'' \<and> c \<noteq> CHR ''?'' \<and> c \<noteq> CHR ''#'' \<and> c \<noteq> CHR '';'' \<and> c \<noteq> CHR '':''"
  using str_int_chars [of c v]
  by (auto simp: archive_name_def FILENAME_PREFIX_def EXTENSION_def is_digit_def)

lemma archive_name_shape:
  "archive_name v \<noteq> []" "archive_name v \<noteq> ''.''" "archive_name v \<noteq> ''..''"
  by (simp_all add: archive_name_def FILENAME_PREFIX_def)

lemma plain_base_parts:
  assumes "plain_base b"
  obtains scheme host p where "with_slash b = scheme @ '':'' @ ''//'' @ host @ p @ ''/''"
    and "scheme \<in> set uses_relative" and "scheme \<in> set uses_netloc" and "scheme \<noteq> []"
    and "host \<noteq> []"
    and "\<forall>c \<in> set host. c \<noteq> CHR ''/'' \<and> c \<noteq> CHR ''?'' \<and> c \<noteq> CHR ''#''"
    and "\<not> bad_brackets host"
    and "p = [] \<or> hd p = CHR ''/''"
    and "\<forall>c \<in> set p. c \<noteq> CHR ''?'' \<and> c \<noteq> CHR ''#'' \<and> c \<noteq> CHR '';''"
    and "''.'' \<notin> set (split_on CHR ''/'' p)" and "''..'' \<notin> set (split_on CHR ''/'' p)"
proof -
  define scheme where "scheme = takeWhile (\<lambda>c. c \<noteq> CHR '':'') b"
  define after where "after = dropWhile (\<lambda>c. c \<noteq> CHR '':'') b"
  define rest where "rest = drop 3 after"
  define host where "host = takeWhile (\<lambda>c. c \<noteq> CHR ''/'') rest"
  define path where "path = dropWhile (\<lambda>c. c \<noteq> CHR ''/'') rest"
  from assms have s: "scheme \<noteq> []" "scheme \<in> set uses_relative" "scheme \<in> set uses_netloc"
    and t3: "take 3 after = ''://''" and h0: "host \<noteq> []" and bb: "\<not> bad_brackets host"
    and rc: "\<forall>c \<in> set rest. c \<noteq> CHR ''?'' \<and> c \<noteq> CHR ''#'' \<and> c \<noteq> CHR '';''"
    and sg: "\<forall>s \<in> set (split_on CHR ''/'' path). s \<noteq> ''.'' \<and> s \<noteq> ''..''"
    by (auto simp: plain_base_def Let_def scheme_def after_def rest_def host_def path_def list_all_iff)
  have "after = take 3 after @ drop 3 after" by simp
  with t3 have a: "after = ''://'' @ rest" by (simp only: rest_def)
  have "b = scheme @ after" by (simp add: scheme_def after_def)
  with a have b: "b = scheme @ '':'' @ ''//'' @ rest" by simp
  have rest: "rest = host @ path" by (simp add: host_def path_def)
  have hs: "\<forall>c \<in> set host. c \<noteq> CHR ''/''"
    unfolding host_def by (auto dest: set_takeWhileD)
  have hc: "\<forall>c \<in> set host. c \<noteq> CHR ''/'' \<and> c \<noteq> CHR ''?'' \<and> c \<noteq> CHR ''#''"
    using hs rc rest by auto
  have pc: "\<forall>c \<in> set path. c \<noteq> CHR ''?'' \<and> c \<noteq> CHR ''#'' \<and> c \<noteq> CHR '';''"
    using rc rest by auto
  have ph: "path = [] \<or> hd path = CHR ''/''"
    unfolding path_def using hd_dropWhile [of "\<lambda>c. c \<noteq> CHR ''/''" rest] by auto
  have bne: "b \<noteq> []" using b by simp
  show ?thesis
  proof (cases "last b = CHR ''/''")
    case True
    have "path \<noteq> []"
    proof
      assume "path = []"
      with b rest h0 have "last b = last host" by simp
      with True h0 hs show False by (metis last_in_set)
    qed
    with b rest True have lp: "last path = CHR ''/''" by simp
    define p where "p = butlast path"
    from \<open>path \<noteq> []\<close> lp have pp: "path = p @ ''/''"
      unfolding p_def by (metis append_butlast_last_id)
    from True bne have "with_slash b = b" by (simp add: with_slash_def)
    with b have ws: "with_slash b = scheme @ '':'' @ ''//'' @ host @ p @ ''/''"
      by (simp add: rest pp)
    have "split_on CHR ''/'' path = split_on CHR ''/'' p @ [[]]"
      unfolding pp by (rule split_on_snoc_sep)
    with sg have sp: "''.'' \<notin> set (split_on CHR ''/'' p)" "''..'' \<notin> set (split_on CHR ''/'' p)"
      by auto
    from ph pp have p0: "p = [] \<or> hd p = CHR ''/''" by (cases p) auto
    from pc pp have pc': "\<forall>c \<in> set p. c \<noteq> CHR ''?'' \<and> c \<noteq> CHR ''#'' \<and> c \<noteq> CHR '';''" by auto
    from ws s(2,3,1) h0 hc bb p0 pc' sp show ?thesis by (rule that)
  next
    case False
    then have "with_slash b = b @ ''/''" by (simp add: with_slash_def)
    with b have ws: "with_slash b = scheme @ '':'' @ ''//'' @ host @ path @ ''/''"
      by (simp add: rest)
    from sg have sp: "''.'' \<notin> set (split_on CHR ''/'' path)" "''..'' \<notin> set (split_on CHR ''/'' path)"
      by auto
    from ws s(2,3,1) h0 hc bb ph pc sp show ?thesis by (rule that)
  qed
qed

text \<open>What the slash is for: without it, the last segment of the base is replaced.\<close>

lemma urljoin_without_slash:
  "urljoin ''http://host/path'' ''webrtc-resources-5.tgz'' = Inr ''http://host/webrtc-resources-5.tgz''"
  by (simp add: url_defs Let_def)

text \<open>
  C5, as the specification has it: the URL of the archive is the base URL, a slash when the
  base does not end with one, and the name of the archive, appended.  The script
  does not append: it hands the base with its slash and the name to \<^verbatim>\<open>urljoin\<close>, which
  resolves the name against the base as a relative reference.  For a base with a
  query the outcome is not the appended text: the query, and with it the last segment
  of the path, is dropped.
\<close>

theorem base_with_query_is_not_appended_to:
  "remote_archive_url ''http://host/path?x=1'' 5 = Inr ''http://host/webrtc-resources-5.tgz''
   \<and> remote_archive_url ''http://host/path?x=1'' 5
       \<noteq> Inr (''http://host/path?x=1'' @ ''/'' @ ''webrtc-resources-'' @ str_int 5 @ ''.tgz'')"
  by (simp add: url_defs int_defs Let_def)

text \<open>
  C5, amended.  The name of the archive is the prefix, the decimal text of the desired
  version and the extension; the base URL gets a slash when it does not end with one;
  and the URL of the archive is what \<^verbatim>\<open>urljoin\<close> makes of the two.  For a base that is a
  URL of a scheme such as \<^verbatim>\<open>http\<close> with a host and a path only (no query, fragment or
  parameters, no segment \<^verbatim>\<open>.\<close> or \<^verbatim>\<open>..\<close>) that is the base with its slash followed by the
  name: for the base \<^verbatim>\<open>http://host/path\<close> and version 5 it is
  \<^verbatim>\<open>http://host/path/webrtc-resources-5.tgz\<close>.
\<close>

theorem archive_url_for_plain_base:
  assumes "plain_base base_url"
  shows "archive_name desired_version = ''webrtc-resources-'' @ str_int desired_version @ ''.tgz''
       \<and> with_slash base_url = (if last base_url = CHR ''/'' then base_url else base_url @ ''/'')
       \<and> remote_archive_url base_url desired_version
           = Inr (with_slash base_url @ archive_name desired_version)"
proof -
  have a: "archive_name desired_version = ''webrtc-resources-'' @ str_int desired_version @ ''.tgz''"
    by (simp add: archive_name_def FILENAME_PREFIX_def EXTENSION_def)
  from assms have "base_url \<noteq> []" by (auto simp: plain_base_def Let_def)
  then have w: "with_slash base_url = (if last base_url = CHR ''/'' then base_url else base_url @ ''/'')"
    by (simp add: with_slash_def)
  from assms obtain scheme host p where
    ws: "with_slash base_url = scheme @ '':'' @ ''//'' @ host @ p @ ''/''"
    and h: "scheme \<in> set uses_relative" "scheme \<in> set uses_netloc" "scheme \<noteq> []"
      "host \<noteq> []" "\<forall>c \<in> set host. c \<noteq> CHR ''/'' \<and> c \<noteq> CHR ''?'' \<and> c \<noteq> CHR ''#''"
      "\<not> bad_brackets host" "p = [] \<or> hd p = CHR ''/''"
      "\<forall>c \<in> set p. c \<noteq> CHR ''?'' \<and> c \<noteq> CHR ''#'' \<and> c \<noteq> CHR '';''"
      "''.'' \<notin> set (split_on CHR ''/'' p)" "''..'' \<notin> set (split_on CHR ''/'' p)"
    by (rule plain_base_parts)
  have n: "\<forall>c \<in> set (archive_name desired_version).
      c \<noteq> CHR ''/'' \<and> c \<noteq> CHR ''?'' \<and> c \<noteq> CHR ''#'' \<and> c \<noteq> CHR '';'' \<and> c \<noteq> CHR '':''"
    using archive_name_chars by blast
  have "urljoin (scheme @ '':'' @ ''//'' @ host @ p @ ''/'') (archive_name desired_version)
      = Inr (scheme @ '':'' @ ''//'' @ host @ p @ ''/'' @ archive_name desired_version)"
    using h archive_name_shape n by (rule urljoin_plain)
  then have "remote_archive_url base_url desired_version
      = Inr (with_slash base_url @ archive_name desired_version)"
    unfolding remote_archive_url_def ws by simp
  with a w show ?thesis by simp
qed

theorem archive_url_for_plain_base_witness:
  "plain_base ''http://host/path''
   \<and> remote_archive_url ''http://host/path'' 5 = Inr ''http://host/path/webrtc-resources-5.tgz''
   \<and> remote_archive_url ''http://host/path'' 5 \<noteq> Inr ''http://host/webrtc-resources-5.tgz''
   \<and> plain_base REMOTE_URL_BASE
   \<and> remote_archive_url REMOTE_URL_BASE 12 =
       Inr ''http://commondatastorage.googleapis.com/webrtc-resources/webrtc-resources-12.tgz''"
proof -
  have p: "plain_base ''http://host/path''"
    by (simp add: plain_base_def bad_brackets_def uses_relative_def uses_netloc_def)
  have q: "plain_base REMOTE_URL_BASE"
    by (simp add: plain_base_def bad_brackets_def uses_relative_def uses_netloc_def REMOTE_URL_BASE_def)
  have s: "str_int 5 = ''5''" "str_int 12 = ''12''" by (simp_all add: int_defs)
  from archive_url_for_plain_base [OF p, of 5] s
  have 1: "remote_archive_url ''http://host/path'' 5 = Inr ''http://host/path/webrtc-resources-5.tgz''"
    by simp
  from archive_url_for_plain_base [OF q, of 12] s
  have 2: "remote_archive_url REMOTE_URL_BASE 12 =
       Inr ''http://commondatastorage.googleapis.com/webrtc-resources/webrtc-resources-12.tgz''"
    by (simp add: REMOTE_URL_BASE_def)
  from p q 1 2 show ?thesis by simp
qed

end
